theory Spec2Isabelle
  imports Complex_Main
begin

section \<open>JavaScript strings\<close>

text \<open>
  A string of the program is held as the bytes of its UTF-8 text, one \<^typ>\<open>char\<close> a byte:
  an ASCII character is one byte, and a character outside ASCII is a sequence of two to
  four bytes, none of them an ASCII byte. (A JavaScript string that is not well-formed
  Unicode, a lone surrogate, has no such text and is outside the model.)
\<close>

text \<open>\<open>String(n)\<close> for a non-negative integer \<open>n\<close>: its decimal digits.\<close>

definition digit_char :: "nat \<Rightarrow> char" where
  "digit_char n = ''0123456789'' ! n"

fun String_nat :: "nat \<Rightarrow> string" where
  "String_nat n =
     (if n < 10 then [digit_char n] else String_nat (n div 10) @ [digit_char (n mod 10)])"

declare String_nat.simps [simp del]

text \<open>\<open>s.padStart(2, "0")\<close>: zeros on the left up to length 2, nothing cut.\<close>

definition padStart2 :: "string \<Rightarrow> string" where
  "padStart2 s = replicate (2 - length s) CHR ''0'' @ s"

text \<open>
  \<open>String.prototype.toLowerCase\<close>, exact on ASCII: the letters A-Z move up by 32. The
  bytes of a character outside ASCII are left as they are. The program lower-cases a name
  only to compare the result with \<open>.pdf\<close>, and no character outside ASCII has one of
  \<open>.\<close>, \<open>p\<close>, \<open>d\<close>, \<open>f\<close> in its lower case, so the comparison comes out as in JavaScript.
\<close>

definition lower_char :: "char \<Rightarrow> char" where
  "lower_char c =
     (let n = (of_char c :: nat)
      in if 65 \<le> n \<and> n \<le> 90 then char_of (n + 32) else c)"

definition toLowerCase :: "string \<Rightarrow> string" where
  "toLowerCase s = map lower_char s"

text \<open>
  \<open>String.prototype.trim\<close> removes white space and line terminators at both ends. These
  are, with their UTF-8 bytes: TAB, LF, VT, FF, CR and SPACE; U+00A0; U+1680; U+2000 to
  U+200A; U+2028, U+2029 and U+202F; U+205F; U+3000; U+FEFF.
\<close>

definition js_spaces :: "string list" where
  "js_spaces =
     [[CHR 0x09], [CHR 0x0A], [CHR 0x0B], [CHR 0x0C], [CHR 0x0D], [CHR 0x20],
      [CHR 0xC2, CHR 0xA0],
      [CHR 0xE1, CHR 0x9A, CHR 0x80],
      [CHR 0xE2, CHR 0x80, CHR 0x80], [CHR 0xE2, CHR 0x80, CHR 0x81],
      [CHR 0xE2, CHR 0x80, CHR 0x82], [CHR 0xE2, CHR 0x80, CHR 0x83],
      [CHR 0xE2, CHR 0x80, CHR 0x84], [CHR 0xE2, CHR 0x80, CHR 0x85],
      [CHR 0xE2, CHR 0x80, CHR 0x86], [CHR 0xE2, CHR 0x80, CHR 0x87],
      [CHR 0xE2, CHR 0x80, CHR 0x88], [CHR 0xE2, CHR 0x80, CHR 0x89],
      [CHR 0xE2, CHR 0x80, CHR 0x8A],
      [CHR 0xE2, CHR 0x80, CHR 0xA8], [CHR 0xE2, CHR 0x80, CHR 0xA9],
      [CHR 0xE2, CHR 0x80, CHR 0xAF],
      [CHR 0xE2, CHR 0x81, CHR 0x9F],
      [CHR 0xE3, CHR 0x80, CHR 0x80],
      [CHR 0xEF, CHR 0xBB, CHR 0xBF]]"

text \<open>
  \<open>strip ws s\<close> takes away, as long as there is one, a member of \<open>ws\<close> that \<open>s\<close> starts
  with. \<open>trimStart\<close> strips the white space; \<open>trimEnd\<close> does it from the other end, where
  the bytes of each character come in reverse.
\<close>

function strip :: "string list \<Rightarrow> string \<Rightarrow> string" where
  "strip ws s =
     (case find (\<lambda>w. w \<noteq> [] \<and> take (length w) s = w) ws of
        None \<Rightarrow> s
      | Some w \<Rightarrow> strip ws (drop (length w) s))"
  by pat_completeness auto
termination
proof (relation "measure (\<lambda>(ws, s). length s)")
  show "wf (measure (\<lambda>(ws, s). length s))" by simp
next
  fix ws :: "string list" and s w :: string
  assume "find (\<lambda>w. w \<noteq> [] \<and> take (length w) s = w) ws = Some w"
  then have "w \<noteq> []" and "take (length w) s = w"
    by (auto simp add: find_Some_iff)
  then have "0 < length w" and "length (take (length w) s) = length w"
    by simp_all
  then have "0 < length w" and "length w \<le> length s"
    by simp_all
  then have "length s - length w < length s"
    by arith
  then show "((ws, drop (length w) s), (ws, s)) \<in> measure (\<lambda>(ws, s). length s)"
    by simp
qed

declare strip.simps [simp del]

definition trimStart :: "string \<Rightarrow> string" where
  "trimStart s = strip js_spaces s"

definition trimEnd :: "string \<Rightarrow> string" where
  "trimEnd s = rev (strip (map rev js_spaces) (rev s))"

definition trim :: "string \<Rightarrow> string" where
  "trim s = trimEnd (trimStart s)"

definition endsWith :: "string \<Rightarrow> string \<Rightarrow> bool" where
  "endsWith s suffix = (length suffix \<le> length s \<and> drop (length s - length suffix) s = suffix)"

section \<open>render.js: \<open>ts\<close>\<close>

text \<open>
  What \<open>new Date()\<close> answers to the six getters \<open>ts\<close> calls. \<open>getMonth\<close> counts
  from 0.
\<close>

record date =
  getFullYear :: nat
  getMonth :: nat
  getDate :: nat
  getHours :: nat
  getMinutes :: nat
  getSeconds :: nat

definition z :: "nat \<Rightarrow> string" where
  "z n = padStart2 (String_nat n)"

definition ts :: "date \<Rightarrow> string" where
  "ts d = String_nat (getFullYear d) @ z (getMonth d + 1) @ z (getDate d) @ ''-'' @
          z (getHours d) @ z (getMinutes d) @ z (getSeconds d)"

section \<open>\<open>path.extname\<close>\<close>

text \<open>
  Node's \<open>path.extname\<close> (POSIX flavour) as its documentation describes it: the extension is
  taken in the last portion of the path, trailing separators apart, from the last \<open>.\<close> to
  the end; it is empty when that portion has no \<open>.\<close>, when its only \<open>.\<close> is its first
  character, and when the portion is \<open>..\<close>.
\<close>

definition last_portion :: "string \<Rightarrow> string" where
  "last_portion p = rev (takeWhile (\<lambda>c. c \<noteq> CHR ''/'') (dropWhile (\<lambda>c. c = CHR ''/'') (rev p)))"

definition extname :: "string \<Rightarrow> string" where
  "extname p =
     (let base = last_portion p;
          tail = rev (takeWhile (\<lambda>c. c \<noteq> CHR ''.'') (rev base))
      in if CHR ''.'' \<notin> set base then []
         else if length tail + 1 = length base then []
         else if base = ''..'' then []
         else CHR ''.'' # tail)"

section \<open>render.js: \<open>parseArgs\<close>\<close>

text \<open>
  The loop of \<open>parseArgs\<close> over \<open>argv\<close>, with \<open>flags.html\<close> and \<open>positional\<close> as
  accumulators. \<open>flags.html\<close> starts as \<open>null\<close> and becomes \<open>undefined\<close> when
  \<open>--html\<close> is the last argument: both are \<open>None\<close> here (the program only tests the flag for
  truthiness).
\<close>

fun parseArgs_loop :: "string list \<Rightarrow> string option \<Rightarrow> string list \<Rightarrow> string option \<times> string list" where
  "parseArgs_loop [] html positional = (html, positional)"
| "parseArgs_loop [a] html positional =
     (if a = ''--html'' then (None, positional) else (html, positional @ [a]))"
| "parseArgs_loop (a # v # rest) html positional =
     (if a = ''--html'' then parseArgs_loop rest (Some v) positional
      else parseArgs_loop (v # rest) html (positional @ [a]))"

definition parseArgs :: "string list \<Rightarrow> string option \<times> string list" where
  "parseArgs argv = parseArgs_loop argv None []"

section \<open>Parsed JSON and the JavaScript operations on it\<close>

text \<open>
  A value as \<open>JSON.parse\<close> returns it. Numbers are IEEE doubles in JavaScript; the model
  keeps them abstract (type \<open>'n\<close>) and takes from the host the two things the program ever
  does with one: test it for falsiness and print it. An object is the list of its own
  properties, each name once.
\<close>

datatype 'n json =
    JNull
  | JBool bool
  | JNum 'n
  | JStr string
  | JArr "'n json list"
  | JObj "(string \<times> 'n json) list"

datatype error =
    TypeError
  | SyntaxError
  | Error string
  | Rejection

text \<open>
  The read of a property whose name no built-in prototype defines and that is neither
  \<open>length\<close> nor an index, on a value that is not \<open>null\<close>: it finds an own property of a
  parsed object or nothing (\<open>None\<close> is \<open>undefined\<close>). \<open>readTrichoData\<close> reads two such
  names, \<open>report_metadata\<close> and \<open>tricho_analysis\<close>.
\<close>

fun js_get :: "'n json \<Rightarrow> string \<Rightarrow> 'n json option" where
  "js_get (JObj kvs) k = map_of kvs k"
| "js_get _ k = None"

fun js_truthy :: "('n \<Rightarrow> bool) \<Rightarrow> 'n json \<Rightarrow> bool" where
  "js_truthy falsy JNull = False"
| "js_truthy falsy (JBool b) = b"
| "js_truthy falsy (JNum n) = (\<not> falsy n)"
| "js_truthy falsy (JStr s) = (s \<noteq> [])"
| "js_truthy falsy (JArr xs) = True"
| "js_truthy falsy (JObj kvs) = True"

text \<open>
  \<open>String(v)\<close>. An array prints its elements joined by commas, \<open>null\<close> elements as
  nothing. A parsed object prints as \<open>[object Object]\<close> through the inherited \<open>toString\<close>;
  when the object has an own property of that name (never a function, in parsed JSON) the
  conversion finds no primitive and throws a TypeError.
\<close>

fun js_String :: "('n \<Rightarrow> string) \<Rightarrow> 'n json \<Rightarrow> error + string"
  and js_join :: "('n \<Rightarrow> string) \<Rightarrow> 'n json list \<Rightarrow> error + string" where
  "js_String numstr JNull = Inr ''null''"
| "js_String numstr (JBool b) = Inr (if b then ''true'' else ''false'')"
| "js_String numstr (JNum n) = Inr (numstr n)"
| "js_String numstr (JStr s) = Inr s"
| "js_String numstr (JArr xs) = js_join numstr xs"
| "js_String numstr (JObj kvs) =
     (if ''toString'' \<in> fst ` set kvs then Inl TypeError else Inr ''[object Object]'')"
| "js_join numstr [] = Inr []"
| "js_join numstr (x # xs) =
     (case (case x of JNull \<Rightarrow> Inr [] | _ \<Rightarrow> js_String numstr x) of
        Inl e \<Rightarrow> Inl e
      | Inr s \<Rightarrow>
          (if xs = [] then Inr s
           else (case js_join numstr xs of Inl e \<Rightarrow> Inl e | Inr t \<Rightarrow> Inr (s @ '','' @ t))))"

subsection \<open>A property read under any name\<close>

text \<open>
  What \<open>v?.[k]\<close> finds when \<open>k\<close> can be any name: nothing, an own property that holds a
  parsed value, or something built in, which is held as the string \<open>String\<close> makes of it
  (a built-in property is never \<open>null\<close> or \<open>undefined\<close>).
\<close>

datatype 'n property =
    Undefined
  | Stored "'n json"
  | Builtin string

text \<open>
  The properties every parsed object inherits from \<open>Object.prototype\<close>, with the string
  Node makes of each: the functions print as native code under their name, and
  \<open>__proto__\<close> answers \<open>Object.prototype\<close> itself, which prints as any plain object.
\<close>

definition Object_prototype :: "string \<Rightarrow> string option" where
  "Object_prototype k =
     map_of
       [(''constructor'', ''function Object() { [native code] }''),
        (''__defineGetter__'', ''function __defineGetter__() { [native code] }''),
        (''__defineSetter__'', ''function __defineSetter__() { [native code] }''),
        (''hasOwnProperty'', ''function hasOwnProperty() { [native code] }''),
        (''__lookupGetter__'', ''function __lookupGetter__() { [native code] }''),
        (''__lookupSetter__'', ''function __lookupSetter__() { [native code] }''),
        (''isPrototypeOf'', ''function isPrototypeOf() { [native code] }''),
        (''propertyIsEnumerable'', ''function propertyIsEnumerable() { [native code] }''),
        (''toString'', ''function toString() { [native code] }''),
        (''valueOf'', ''function valueOf() { [native code] }''),
        (''__proto__'', ''[object Object]''),
        (''toLocaleString'', ''function toLocaleString() { [native code] }'')] k"

text \<open>
  The read itself. On \<open>null\<close> the optional chaining answers \<open>undefined\<close>. An object has the
  properties it was parsed with and, under the other names, those of \<open>Object.prototype\<close>.
  An array has its \<open>length\<close> and its elements under their indices (decimal, no leading
  zero). Whatever else an array has, and everything a string, a number or a boolean has
  (its own \<open>length\<close> and characters for a string, and the properties of the prototypes,
  which change with the version of the engine), is asked of the engine: \<open>engine v k\<close> is
  the string of what it finds there, if it finds something.
\<close>

definition js_read :: "('n json \<Rightarrow> string \<Rightarrow> string option) \<Rightarrow> 'n json \<Rightarrow> string \<Rightarrow> 'n property" where
  "js_read engine v k =
     (case v of
        JNull \<Rightarrow> Undefined
      | JObj kvs \<Rightarrow>
          (case map_of kvs k of
             Some x \<Rightarrow> Stored x
           | None \<Rightarrow> (case Object_prototype k of Some b \<Rightarrow> Builtin b | None \<Rightarrow> Undefined))
      | JArr xs \<Rightarrow>
          (if k = ''length'' then Builtin (String_nat (length xs))
           else (case find (\<lambda>i. String_nat i = k) [0..<length xs] of
                   Some i \<Rightarrow> Stored (xs ! i)
                 | None \<Rightarrow> (case engine v k of Some b \<Rightarrow> Builtin b | None \<Rightarrow> Undefined)))
      | _ \<Rightarrow> (case engine v k of Some b \<Rightarrow> Builtin b | None \<Rightarrow> Undefined))"

section \<open>The host: Node, the file system and the browser\<close>

text \<open>The object \<open>main\<close> passes to \<open>page.evaluate\<close>; the page receives it as \<open>payload\<close>.\<close>

record threshold_config =
  thin60 :: rat
  ratio_max :: rat
  ultra30 :: rat

record image_urls =
  normalBaseUrl :: string
  patientBaseUrl :: string

record render_opts =
  patientId :: string
  examDate :: string
  thresholds :: threshold_config
  images :: image_urls

record 'n render_payload =
  data :: "'n json list"
  opts :: render_opts

text \<open>
  The awaited calls of the program, each with the arguments the source gives it:
  \<open>puppeteer.launch\<close> with \<open>args\<close> and \<open>headless\<close>, \<open>page.goto\<close> with the URL and
  \<open>waitUntil\<close>, \<open>page.waitForSelector\<close> with the selector and the timeout in
  milliseconds, \<open>page.$$eval\<close> with the selector whose matches it counts, \<open>page.pdf\<close>
  with \<open>path\<close>, \<open>printBackground\<close> and \<open>preferCSSPageSize\<close>.
\<close>

datatype 'n call =
    fs_access string
  | fs_readFile string
  | puppeteer_launch "string list" string
  | browser_newPage
  | page_goto string string
  | page_evaluate "'n render_payload"
  | page_waitForSelector string nat
  | page_eval_count string
  | page_emulateMediaType string
  | page_pdf string bool bool
  | browser_close

text \<open>What \<open>console.error\<close> prints: the usage text of lines 66-72, or a marker and a value.\<close>

datatype message =
    Usage
  | Missing_file string
  | Missing_HTML string
  | Uncaught error

text \<open>
  What a run does, in order. \<open>Call c b\<close> is the call \<open>c\<close>, with \<open>b\<close> telling whether its
  promise was fulfilled. A line of \<open>console.log\<close> is its label (the leading glyph left out)
  and the values printed after it. The listener that \<open>page.on("console", ...)\<close> registers
  only relays the page's own console lines and is not part of the model.
\<close>

datatype 'n event =
    Call "'n call" bool
  | console_log string "string list"
  | console_error message
  | console_time string
  | console_timeEnd string

datatype wait_result = Appeared | TimedOut | WaitFailed

text \<open>
  Everything the program takes from outside: the command line, the clock, the functions of
  \<open>node:path\<close> and \<open>node:url\<close> it calls (kept abstract, apart from \<open>extname\<close>), the
  file system, \<open>JSON.parse\<close>, what the engine finds under a name on a value that is not
  a parsed object (see \<open>js_read\<close>), and how each browser call ends. \<open>has_renderReportFromJson\<close>
  tells whether the loaded page defines the entry point as a function, and
  \<open>renderReportFromJson_ok\<close> whether calling it returns without throwing.
\<close>

record 'n host =
  argv :: "string list"
  script_dirname :: string
  now :: date
  toLocaleString_jaJP :: string
  path_resolve :: "string list \<Rightarrow> string"
  path_dirname :: "string \<Rightarrow> string"
  path_join :: "string list \<Rightarrow> string"
  pathToFileURL_href :: "string \<Rightarrow> string"
  Number_falsy :: "'n \<Rightarrow> bool"
  Number_toString :: "'n \<Rightarrow> string"
  engine_read :: "'n json \<Rightarrow> string \<Rightarrow> string option"
  access_ok :: "string \<Rightarrow> bool"
  readFile_utf8 :: "string \<Rightarrow> string option"
  JSON_parse :: "string \<Rightarrow> 'n json option"
  launch_ok :: bool
  newPage_ok :: bool
  goto_ok :: "string \<Rightarrow> bool"
  has_renderReportFromJson :: bool
  renderReportFromJson_ok :: "'n render_payload \<Rightarrow> bool"
  waitForSelector_result :: wait_result
  card_count :: "nat option"
  emulateMediaType_ok :: bool
  pdf_ok :: "string \<Rightarrow> bool"
  close_ok :: bool

text \<open>
  How the async function \<open>main\<close> ends: its promise is fulfilled, it is rejected with an
  error, or \<open>process.exit\<close> ended the process inside it. A run is the events so far and
  that end.
\<close>

datatype outcome = Resolved | Rejected error | Exited nat

type_synonym 'n run = "'n event list \<times> outcome"

definition emit :: "'n event \<Rightarrow> 'n run \<Rightarrow> 'n run" where
  "emit e rest = (e # fst rest, snd rest)"

text \<open>\<open>await c\<close>: when the promise is rejected the function stops there with the error.\<close>

definition await :: "'n call \<Rightarrow> error option \<Rightarrow> 'n run \<Rightarrow> 'n run" where
  "await c failure rest =
     (case failure of
        None \<Rightarrow> emit (Call c True) rest
      | Some e \<Rightarrow> ([Call c False], Rejected e))"

definition unless :: "bool \<Rightarrow> error option" where
  "unless ok = (if ok then None else Some Rejection)"

section \<open>render.js: \<open>safeMeta\<close>\<close>

definition safeMeta :: "'n host \<Rightarrow> 'n json \<Rightarrow> string \<Rightarrow> string \<Rightarrow> error + string" where
  "safeMeta h meta key fallback =
     (case js_read (engine_read h) meta key of
        Undefined \<Rightarrow> Inr fallback
      | Stored JNull \<Rightarrow> Inr fallback
      | Stored v \<Rightarrow>
          (case js_String (Number_toString h) v of
             Inl e \<Rightarrow> Inl e
           | Inr str \<Rightarrow> (let s = trim str in Inr (if s \<noteq> [] then s else fallback)))
      | Builtin str \<Rightarrow> (let s = trim str in Inr (if s \<noteq> [] then s else fallback)))"

section \<open>render.js: \<open>toBaseUrl\<close>, \<open>readTrichoData\<close>\<close>

definition DEFAULT_HTML_PATH :: "'n host \<Rightarrow> string" where
  "DEFAULT_HTML_PATH h = path_resolve h [script_dirname h, ''report_template.html'']"

definition toBaseUrl :: "'n host \<Rightarrow> string \<Rightarrow> string" where
  "toBaseUrl h dirPath =
     (let href = pathToFileURL_href h (path_resolve h [dirPath])
      in if \<not> endsWith href ''/'' then href @ ''/'' else href)"

text \<open>
  Lines 47-50 of \<open>readTrichoData\<close>, on the parsed value. Reading a property of \<open>null\<close>
  throws, which is the first case.
\<close>

definition readTrichoData_json :: "('n \<Rightarrow> bool) \<Rightarrow> 'n json \<Rightarrow> error + 'n json \<times> 'n json list" where
  "readTrichoData_json falsy json =
     (case json of
        JNull \<Rightarrow> Inl TypeError
      | _ \<Rightarrow>
         (let meta = (case js_get json ''report_metadata'' of
                        None \<Rightarrow> JObj []
                      | Some m \<Rightarrow> if js_truthy falsy m then m else JObj []);
              arr = (case js_get json ''tricho_analysis'' of
                       Some (JArr xs) \<Rightarrow> xs
                     | _ \<Rightarrow> [])
          in Inr (meta, arr)))"

definition readTrichoData :: "'n host \<Rightarrow> string \<Rightarrow> 'n event list \<times> (error + 'n json \<times> 'n json list)" where
  "readTrichoData h tempDir =
     (let p = path_join h [tempDir, ''tricho_data.json'']
      in case readFile_utf8 h p of
           None \<Rightarrow> ([Call (fs_readFile p) False], Inl Rejection)
         | Some raw \<Rightarrow>
             ([Call (fs_readFile p) True],
              (case JSON_parse h raw of
                 None \<Rightarrow> Inl SyntaxError
               | Some json \<Rightarrow> readTrichoData_json (Number_falsy h) json)))"

section \<open>render.js: \<open>main\<close>\<close>

text \<open>
  \<open>main\<close> is one function in the source; it is cut here at its own section comments, each
  part taking the locals of the parts before it. Lines 131-198: the browser.
\<close>

text \<open>
  The function \<open>page.evaluate\<close> runs in the page: it throws when the entry point is not a
  function, and calls it otherwise.
\<close>

definition evaluate_failure :: "'n host \<Rightarrow> 'n render_payload \<Rightarrow> error option" where
  "evaluate_failure h payload =
     (if \<not> has_renderReportFromJson h then Some (Error ''renderReportFromJson() not found on page'')
      else unless (renderReportFromJson_ok h payload))"

definition main_render ::
  "'n host \<Rightarrow> string \<Rightarrow> string \<Rightarrow> 'n json list \<Rightarrow> string \<Rightarrow> string \<Rightarrow> string \<Rightarrow> string \<Rightarrow> 'n run" where
  "main_render h htmlPath outPath arr patient_id exam_date normalImagesDir patientImagesDir =
     emit (console_log ''Launching browser...'' [])
    (await (puppeteer_launch [''--no-sandbox'', ''--disable-setuid-sandbox''] ''new'')
       (unless (launch_ok h))
    (await browser_newPage (unless (newPage_ok h))
    (emit (console_log ''Loading HTML ...'' [])
    (let url = pathToFileURL_href h htmlPath in
     await (page_goto url ''domcontentloaded'') (unless (goto_ok h url))
    (let imgs = \<lparr>normalBaseUrl = toBaseUrl h normalImagesDir,
                 patientBaseUrl = toBaseUrl h patientImagesDir\<rparr>;
         payload = \<lparr>data = arr,
                    opts = \<lparr>patientId = patient_id, examDate = exam_date,
                             thresholds = \<lparr>thin60 = 3 / 10, ratio_max = 9 / 5, ultra30 = 3 / 20\<rparr>,
                             images = imgs\<rparr>\<rparr> in
     emit (console_log ''Injecting data & rendering ...'' [])
    (emit (console_time ''render:evaluate'')
    (await (page_evaluate payload) (evaluate_failure h payload)
    (emit (console_timeEnd ''render:evaluate'')
    (emit (console_log ''Waiting for DOM to settle (logic table) ...'' [])
    (emit (Call (page_waitForSelector ''#mini tbody tr'' 8000) (waitForSelector_result h = Appeared))
    (let cardCount = (case card_count h of Some n \<Rightarrow> n | None \<Rightarrow> 0) in
     emit (Call (page_eval_count ''.card'') (card_count h \<noteq> None))
    (emit (console_log ''  cards rendered:'' [String_nat cardCount])
    (emit (console_log ''Exporting PDF ...'' [])
    (emit (console_time ''pdf:write'')
    (await (page_emulateMediaType ''screen'') (unless (emulateMediaType_ok h))
    (await (page_pdf outPath True True) (unless (pdf_ok h outPath))
    (emit (console_timeEnd ''pdf:write'')
    (await browser_close (unless (close_ok h))
    (emit (console_log ''Done. Saved:'' [outPath])
    ([], Resolved))))))))))))))))))))"

text \<open>Lines 112-129: the data and the image directories.\<close>

definition main_readData :: "'n host \<Rightarrow> string \<Rightarrow> string \<Rightarrow> string \<Rightarrow> 'n run" where
  "main_readData h tempDir htmlPath outPath =
     emit (console_log ''Reading tricho_data.json ...'' [])
    (case readTrichoData h tempDir of
       (evs, Inl e) \<Rightarrow> (evs, Rejected e)
     | (evs, Inr (meta, arr)) \<Rightarrow>
        (case safeMeta h meta ''name'' ''-'' of
           Inl e \<Rightarrow> (evs, Rejected e)
         | Inr patient_id \<Rightarrow>
            (case safeMeta h meta ''appointment_date'' (toLocaleString_jaJP h) of
               Inl e \<Rightarrow> (evs, Rejected e)
             | Inr exam_date \<Rightarrow>
                (let patientImagesDir = path_join h [tempDir, ''filtered_images''];
                     normalImagesDir = path_join h [script_dirname h, ''normal_images''];
                     rest =
                       emit (console_log ''  patientId     :'' [patient_id])
                      (emit (console_log ''  examDate      :'' [exam_date])
                      (emit (console_log ''  regions(count):'' [String_nat (length arr)])
                      (emit (console_log ''  images.A(normal):'' [normalImagesDir])
                      (emit (console_log ''  images.B(patient):'' [patientImagesDir])
                      (main_render h htmlPath outPath arr patient_id exam_date
                         normalImagesDir patientImagesDir)))))
                 in (evs @ fst rest, snd rest)))))"

text \<open>
  Lines 100-110: the two existence checks. The handler of a failed \<open>fs.access\<close> prints
  and ends the process.
\<close>

definition main_checkInputs :: "'n host \<Rightarrow> string \<Rightarrow> string \<Rightarrow> string \<Rightarrow> 'n run" where
  "main_checkInputs h tempDir htmlPath outPath =
     emit (console_log ''Checking inputs...'' [])
    (let dataJsonPath = path_join h [tempDir, ''tricho_data.json''] in
     if \<not> access_ok h dataJsonPath
     then ([Call (fs_access dataJsonPath) False, console_error (Missing_file dataJsonPath)], Exited 1)
     else emit (Call (fs_access dataJsonPath) True)
       (if \<not> access_ok h htmlPath
        then ([Call (fs_access htmlPath) False, console_error (Missing_HTML htmlPath)], Exited 1)
        else emit (Call (fs_access htmlPath) True)
          (main_readData h tempDir htmlPath outPath)))"

text \<open>
  Lines 60-98: the arguments and the paths. \<open>positional[1]\<close> is \<open>undefined\<close> when there is
  one positional argument; \<open>undefined\<close>, \<open>null\<close> and the empty string are falsy.
\<close>

definition main :: "'n host \<Rightarrow> 'n run" where
  "main h =
     (case parseArgs (argv h) of (flags_html, positional) \<Rightarrow>
      if length positional < 1 then ([console_error Usage], Exited 1)
      else
       (let tempDir = path_resolve h [positional ! 0];
            outNameMaybe = (if 1 < length positional then Some (positional ! 1) else None);
            override = (case flags_html of None \<Rightarrow> False | Some f \<Rightarrow> f \<noteq> []);
            htmlPath = (if override then path_resolve h [the flags_html] else DEFAULT_HTML_PATH h);
            parentDir = path_dirname h tempDir;
            outPath = path_join h
              [parentDir,
               (case outNameMaybe of
                  None \<Rightarrow> ''report-'' @ ts (now h) @ ''.pdf''
                | Some name \<Rightarrow>
                    if name \<noteq> [] \<and> toLowerCase (extname name) = ''.pdf'' then name
                    else ''report-'' @ ts (now h) @ ''.pdf'')]
        in emit (console_log ''=== Tricho Report Render ==='' [])
          (emit (console_log ''temp_dir        :'' [tempDir])
          (emit (console_log ''html            :''
                   [htmlPath, if override then ''(override)'' else ''(default)''])
          (emit (console_log ''pdf_out         :'' [outPath])
          (main_checkInputs h tempDir htmlPath outPath))))))"

text \<open>
  Lines 201-204: the script runs \<open>main\<close> and, when its promise is rejected, prints the
  error and ends the process with status 1. A process that ends by itself has status 0.
  The result is every event of the run and the exit status.
\<close>

definition program :: "'n host \<Rightarrow> 'n event list \<times> nat" where
  "program h =
     (case main h of
        (evs, Resolved) \<Rightarrow> (evs, 0)
      | (evs, Rejected e) \<Rightarrow> (evs @ [console_error (Uncaught e)], 1)
      | (evs, Exited status) \<Rightarrow> (evs, status))"

section \<open>newest_folder_getter.ps1: the report query\<close>

text \<open>
  The second half of the script (lines 19-33) looks for the newest report in a directory.
  What \<open>Get-ChildItem\<close> returns for an entry: the properties the script reads.
  \<open>LastWriteTime\<close> is a \<open>DateTime\<close>, held as its ticks (100 ns units since the start of
  year 1); \<open>DateTime.Date\<close> is the same day at 00:00.
\<close>

record item =
  Name :: string
  FullName :: string
  LastWriteTime :: nat
  PSIsContainer :: bool

definition ticks_per_day :: nat where
  "ticks_per_day = 864000000000"

definition DateTime_Date :: "nat \<Rightarrow> nat" where
  "DateTime_Date t = t - t mod ticks_per_day"

text \<open>\<open>-Filter *.pdf\<close>: the name ends in \<open>.pdf\<close>, letter case apart (Windows).\<close>

definition Filter_pdf :: "string \<Rightarrow> bool" where
  "Filter_pdf name = endsWith (toLowerCase name) ''.pdf''"

text \<open>
  \<open>Sort-Object LastWriteTime -Descending\<close>. PowerShell does not fix the order of entries
  with equal keys; nothing below depends on it.
\<close>

definition Sort_Object_Descending :: "item list \<Rightarrow> item list" where
  "Sort_Object_Descending xs = rev (sort_key LastWriteTime xs)"

text \<open>Lines 23-26: the pipeline that is assigned to \<open>$newestFile\<close>.\<close>

definition newestFile :: "item list \<Rightarrow> nat \<Rightarrow> item option" where
  "newestFile children targetDate =
     (case take 1 (Sort_Object_Descending
             (filter (\<lambda>f. DateTime_Date targetDate \<le> LastWriteTime f)
                (filter (\<lambda>f. \<not> PSIsContainer f \<and> Filter_pdf (Name f)) children))) of
        [] \<Rightarrow> None
      | f # _ \<Rightarrow> Some f)"

text \<open>
  Lines 29-33: what the script returns. \<open>ToShortDateString\<close> follows the culture of the
  session and is taken from outside.
\<close>

definition report_query :: "(nat \<Rightarrow> string) \<Rightarrow> item list \<Rightarrow> nat \<Rightarrow> string" where
  "report_query ToShortDateString children targetDate =
     (case newestFile children targetDate of
        Some f \<Rightarrow> FullName f
      | None \<Rightarrow> ToShortDateString targetDate @ '' has no report'')"

section \<open>Reading a run\<close>

text \<open>The calls that go to the browser, as opposed to the file system.\<close>

fun browser_call :: "'n call \<Rightarrow> bool" where
  "browser_call (fs_access p) = False"
| "browser_call (fs_readFile p) = False"
| "browser_call c = True"

definition quiet :: "'n event list \<Rightarrow> bool" where
  "quiet evs = (\<forall>e \<in> set evs. case e of Call c b \<Rightarrow> \<not> browser_call c | _ \<Rightarrow> True)"

text \<open>
  The locals of \<open>main\<close> as functions of the parsed command line: \<open>htmlPath\<close> (line 79) and
  the file name inside \<open>outPath\<close> (lines 85-87).
\<close>

definition htmlPath_of :: "'n host \<Rightarrow> string option \<Rightarrow> string" where
  "htmlPath_of h flags_html =
     (case flags_html of
        None \<Rightarrow> DEFAULT_HTML_PATH h
      | Some f \<Rightarrow> if f \<noteq> [] then path_resolve h [f] else DEFAULT_HTML_PATH h)"

definition outName_of :: "'n host \<Rightarrow> string list \<Rightarrow> string" where
  "outName_of h positional =
     (if 1 < length positional \<and> positional ! 1 \<noteq> [] \<and>
         toLowerCase (extname (positional ! 1)) = ''.pdf''
      then positional ! 1
      else ''report-'' @ ts (now h) @ ''.pdf'')"

definition outPath_of :: "'n host \<Rightarrow> string list \<Rightarrow> string" where
  "outPath_of h positional =
     path_join h [path_dirname h (path_resolve h [positional ! 0]), outName_of h positional]"

text \<open>The events of lines 91-98 and of lines 101-129 when nothing fails there.\<close>

definition arg_events :: "'n host \<Rightarrow> string option \<Rightarrow> string list \<Rightarrow> 'n event list" where
  "arg_events h flags_html positional =
     [console_log ''=== Tricho Report Render ==='' [],
      console_log ''temp_dir        :'' [path_resolve h [positional ! 0]],
      console_log ''html            :''
        [htmlPath_of h flags_html,
         if flags_html \<noteq> None \<and> flags_html \<noteq> Some [] then ''(override)'' else ''(default)''],
      console_log ''pdf_out         :'' [outPath_of h positional]]"

definition input_events ::
  "'n host \<Rightarrow> string \<Rightarrow> string \<Rightarrow> 'n json list \<Rightarrow> string \<Rightarrow> string \<Rightarrow> 'n event list" where
  "input_events h tempDir htmlPath arr pid ed =
     [console_log ''Checking inputs...'' [],
      Call (fs_access (path_join h [tempDir, ''tricho_data.json''])) True,
      Call (fs_access htmlPath) True,
      console_log ''Reading tricho_data.json ...'' [],
      Call (fs_readFile (path_join h [tempDir, ''tricho_data.json''])) True,
      console_log ''  patientId     :'' [pid],
      console_log ''  examDate      :'' [ed],
      console_log ''  regions(count):'' [String_nat (length arr)],
      console_log ''  images.A(normal):'' [path_join h [script_dirname h, ''normal_images'']],
      console_log ''  images.B(patient):'' [path_join h [tempDir, ''filtered_images'']]]"

text \<open>
  A run that gets to the browser: the command line has a positional argument, both files
  are there, the data file is read and parsed, and both metadata fields have a string form.
  \<open>arr\<close>, \<open>pid\<close> and \<open>ed\<close> are then the locals \<open>arr\<close>, \<open>patientId\<close> and \<open>examDate\<close>.
\<close>

definition reaches_browser ::
  "'n host \<Rightarrow> string option \<Rightarrow> string list \<Rightarrow> 'n json \<Rightarrow> 'n json list \<Rightarrow> string \<Rightarrow> string \<Rightarrow> bool" where
  "reaches_browser h flags_html positional json arr pid ed =
     (parseArgs (argv h) = (flags_html, positional) \<and> positional \<noteq> [] \<and>
      access_ok h (path_join h [path_resolve h [positional ! 0], ''tricho_data.json'']) \<and>
      access_ok h (htmlPath_of h flags_html) \<and>
      (case readFile_utf8 h (path_join h [path_resolve h [positional ! 0], ''tricho_data.json'']) of
         None \<Rightarrow> False
       | Some raw \<Rightarrow> JSON_parse h raw = Some json) \<and>
      (case readTrichoData_json (Number_falsy h) json of
         Inl e \<Rightarrow> False
       | Inr (meta, arr') \<Rightarrow>
           arr' = arr \<and>
           safeMeta h meta ''name'' ''-'' = Inr pid \<and>
           safeMeta h meta ''appointment_date'' (toLocaleString_jaJP h) = Inr ed))"

text \<open>The part of such a run that \<open>main\<close> spends in the browser.\<close>

definition browser_part ::
  "'n host \<Rightarrow> string option \<Rightarrow> string list \<Rightarrow> 'n json list \<Rightarrow> string \<Rightarrow> string \<Rightarrow> 'n run" where
  "browser_part h flags_html positional arr pid ed =
     main_render h (htmlPath_of h flags_html) (outPath_of h positional) arr pid ed
       (path_join h [script_dirname h, ''normal_images''])
       (path_join h [path_resolve h [positional ! 0], ''filtered_images''])"

text \<open>
  Lines 179-189: the settle wait, the card count, the two lines printed and the first
  call of the export, each call with the way it ended.
\<close>

definition settle_events :: "'n host \<Rightarrow> 'n event list" where
  "settle_events h =
     [Call (page_waitForSelector ''#mini tbody tr'' 8000) (waitForSelector_result h = Appeared),
      Call (page_eval_count ''.card'') (card_count h \<noteq> None),
      console_log ''  cards rendered:'' [String_nat (case card_count h of Some n \<Rightarrow> n | None \<Rightarrow> 0)],
      console_log ''Exporting PDF ...'' [],
      console_time ''pdf:write'',
      Call (page_emulateMediaType ''screen'') (emulateMediaType_ok h)]"

text \<open>A host whose browser fulfils every call the program can make.\<close>

definition browser_cooperates :: "'n host \<Rightarrow> bool" where
  "browser_cooperates h =
     (launch_ok h \<and> newPage_ok h \<and> (\<forall>url. goto_ok h url) \<and> has_renderReportFromJson h \<and>
      (\<forall>payload. renderReportFromJson_ok h payload) \<and> emulateMediaType_ok h \<and>
      (\<forall>p. pdf_ok h p) \<and> close_ok h)"

section \<open>The output name, in the words of the specification\<close>

text \<open>
  The generated name \<open>report-YYYYMMDD-HHMMSS.pdf\<close>: four digits for the year, two for
  each other component, the month counted from 1.
\<close>

definition two_digits :: "nat \<Rightarrow> string" where
  "two_digits n = [digit_char (n div 10), digit_char (n mod 10)]"

definition four_digits :: "nat \<Rightarrow> string" where
  "four_digits n =
     [digit_char (n div 1000), digit_char (n div 100 mod 10), digit_char (n div 10 mod 10),
      digit_char (n mod 10)]"

definition generated_name :: "date \<Rightarrow> string" where
  "generated_name d =
     ''report-'' @ four_digits (getFullYear d) @ two_digits (getMonth d + 1) @
     two_digits (getDate d) @ ''-'' @ two_digits (getHours d) @ two_digits (getMinutes d) @
     two_digits (getSeconds d) @ ''.pdf''"

definition is_digit :: "char \<Rightarrow> bool" where
  "is_digit c = (c \<in> set ''0123456789'')"

definition matches_pattern :: "string \<Rightarrow> bool" where
  "matches_pattern s =
     (length s = 26 \<and> take 7 s = ''report-'' \<and> list_all is_digit (take 8 (drop 7 s)) \<and>
      s ! 15 = CHR ''-'' \<and> list_all is_digit (take 6 (drop 16 s)) \<and> drop 22 s = ''.pdf'')"

text \<open>
  A reading of the clock: the ranges of the six getters, for a year of four digits.
\<close>

definition calendar :: "date \<Rightarrow> bool" where
  "calendar d =
     (1000 \<le> getFullYear d \<and> getFullYear d \<le> 9999 \<and> getMonth d < 12 \<and>
      1 \<le> getDate d \<and> getDate d \<le> 31 \<and> getHours d < 24 \<and> getMinutes d < 60 \<and>
      getSeconds d < 60)"

text \<open>The letter casings of the extension \<open>.pdf\<close>.\<close>

definition pdf_extensions :: "string list" where
  "pdf_extensions =
     [''.pdf'', ''.pdF'', ''.pDf'', ''.pDF'', ''.Pdf'', ''.PdF'', ''.PDf'', ''.PDF'']"

text \<open>
  The caller's name (the second positional argument) when its extension is one of these,
  the generated name otherwise.
\<close>

definition spec_outName :: "string list \<Rightarrow> date \<Rightarrow> string" where
  "spec_outName positional d =
     (case positional of
        dir # name # _ \<Rightarrow> if extname name \<in> set pdf_extensions then name else generated_name d
      | _ \<Rightarrow> generated_name d)"

section \<open>Example hosts\<close>

text \<open>
  A host on which a run succeeds: one positional argument, both files present, a bundle
  of two regions, a browser whose calls are all fulfilled. The path functions are simple
  stand-ins that agree with Node on the absolute, normalised paths of the example, and the
  text of the data file is abbreviated. Its metadata is an object, so the engine is never
  asked for a property, and the example has it answer nothing.
\<close>

definition example_join :: "string list \<Rightarrow> string" where
  "example_join segments = foldr (\<lambda>a b. if b = [] then a else a @ ''/'' @ b) segments []"

definition example_dirname :: "string \<Rightarrow> string" where
  "example_dirname p = rev (drop 1 (dropWhile (\<lambda>c. c \<noteq> CHR ''/'') (rev p)))"

definition example_bundle :: "nat json" where
  "example_bundle =
     JObj [(''report_metadata'', JObj [(''name'', JStr ''P-001''), (''appointment_date'', JStr ''2025-07-20'')]),
           (''tricho_analysis'', JArr [JObj [(''region'', JStr ''frontal'')], JObj [(''region'', JStr ''vertex'')]])]"

definition example_host :: "nat host" where
  "example_host =
     \<lparr>argv = [''/cases/c1''],
      script_dirname = ''/app'',
      now = \<lparr>getFullYear = 2025, getMonth = 6, getDate = 20,
              getHours = 9, getMinutes = 5, getSeconds = 0\<rparr>,
      toLocaleString_jaJP = ''2025/7/20 9:05:00'',
      path_resolve = example_join,
      path_dirname = example_dirname,
      path_join = example_join,
      pathToFileURL_href = (\<lambda>p. ''file://'' @ p),
      Number_falsy = (\<lambda>n. n = 0),
      Number_toString = String_nat,
      engine_read = (\<lambda>v k. None),
      access_ok = (\<lambda>p. p \<in> {''/cases/c1/tricho_data.json'', ''/app/report_template.html''}),
      readFile_utf8 = (\<lambda>p. if p = ''/cases/c1/tricho_data.json'' then Some ''(bundle c1)'' else None),
      JSON_parse = (\<lambda>raw. if raw = ''(bundle c1)'' then Some example_bundle else None),
      launch_ok = True,
      newPage_ok = True,
      goto_ok = (\<lambda>url. True),
      has_renderReportFromJson = True,
      renderReportFromJson_ok = (\<lambda>payload. True),
      waitForSelector_result = Appeared,
      card_count = Some 2,
      emulateMediaType_ok = True,
      pdf_ok = (\<lambda>p. True),
      close_ok = True\<rparr>"

section \<open>Facts about the model\<close>

subsection \<open>Events that are not browser calls\<close>

lemma quiet_simps [simp]:
  "quiet []"
  "quiet (Call c b # evs) = (\<not> browser_call c \<and> quiet evs)"
  "quiet (console_log l vs # evs) = quiet evs"
  "quiet (console_error m # evs) = quiet evs"
  "quiet (console_time l # evs) = quiet evs"
  "quiet (console_timeEnd l # evs) = quiet evs"
  "quiet (xs @ ys) = (quiet xs \<and> quiet ys)"
  by (auto simp add: quiet_def)

lemma quiet_Call: "quiet evs \<Longrightarrow> Call c b \<in> set evs \<Longrightarrow> \<not> browser_call c"
  by (auto simp add: quiet_def split: event.splits)

lemma quiet_arg_events: "quiet (arg_events h fl pos)"
  by (simp add: arg_events_def)

lemma quiet_input_events: "quiet (input_events h tempDir htmlPath arr pid ed)"
  by (simp add: input_events_def)

subsection \<open>Values the loader and \<open>safeMeta\<close> cannot handle\<close>

text \<open>
  Two inputs on which the source throws a TypeError, both fatal for the run: a data file
  that holds just \<open>null\<close>, and a metadata value that is an object with an own
  \<open>toString\<close> property.
\<close>

lemma readTrichoData_json_null: "readTrichoData_json falsy JNull = Inl TypeError"
  by (simp add: readTrichoData_json_def)

lemma safeMeta_no_string_form:
  "safeMeta h (JObj [(key, JObj [(''toString'', v)])]) key fallback = Inl TypeError"
  by (simp add: safeMeta_def js_read_def)

subsection \<open>The two property reads\<close>

text \<open>
  On an object, and under a name that \<open>Object.prototype\<close> does not define, the read under
  any name is the read of an own property; the four names the program reads are such
  names.
\<close>

lemma js_read_own:
  "Object_prototype k = None \<Longrightarrow>
   js_read engine (JObj kvs) k = (case js_get (JObj kvs) k of None \<Rightarrow> Undefined | Some x \<Rightarrow> Stored x)"
  by (simp add: js_read_def split: option.splits)

lemma names_read_are_not_inherited:
  "Object_prototype ''report_metadata'' = None" "Object_prototype ''tricho_analysis'' = None"
  "Object_prototype ''name'' = None" "Object_prototype ''appointment_date'' = None"
  by (simp_all add: Object_prototype_def)

subsection \<open>\<open>main\<close> up to the browser\<close>

lemma main_unfold:
  assumes "parseArgs (argv h) = (fl, pos)" and "pos \<noteq> []"
  shows "main h =
     (arg_events h fl pos @
        fst (main_checkInputs h (path_resolve h [pos ! 0]) (htmlPath_of h fl) (outPath_of h pos)),
      snd (main_checkInputs h (path_resolve h [pos ! 0]) (htmlPath_of h fl) (outPath_of h pos)))"
  using assms
  by (cases fl)
     (simp_all add: main_def Let_def emit_def arg_events_def htmlPath_of_def outPath_of_def
        outName_of_def)

lemma checkInputs_reaches:
  assumes "access_ok h (path_join h [tempDir, ''tricho_data.json''])" and "access_ok h htmlPath"
    and "readFile_utf8 h (path_join h [tempDir, ''tricho_data.json'']) = Some raw"
    and "JSON_parse h raw = Some json"
    and "readTrichoData_json (Number_falsy h) json = Inr (meta, arr)"
    and "safeMeta h meta ''name'' ''-'' = Inr pid"
    and "safeMeta h meta ''appointment_date'' (toLocaleString_jaJP h) = Inr ed"
  shows "main_checkInputs h tempDir htmlPath outPath =
     (input_events h tempDir htmlPath arr pid ed @
        fst (main_render h htmlPath outPath arr pid ed
               (path_join h [script_dirname h, ''normal_images''])
               (path_join h [tempDir, ''filtered_images''])),
      snd (main_render h htmlPath outPath arr pid ed
               (path_join h [script_dirname h, ''normal_images''])
               (path_join h [tempDir, ''filtered_images''])))"
  using assms
  by (simp add: main_checkInputs_def main_readData_def readTrichoData_def emit_def Let_def input_events_def)

lemma checkInputs_cases:
  "(quiet (fst (main_checkInputs h tempDir htmlPath outPath)) \<and>
      ((\<exists>e. snd (main_checkInputs h tempDir htmlPath outPath) = Rejected e) \<or>
       snd (main_checkInputs h tempDir htmlPath outPath) = Exited 1)) \<or>
   (\<exists>raw json meta arr pid ed. 
      access_ok h (path_join h [tempDir, ''tricho_data.json'']) \<and> access_ok h htmlPath \<and>
      readFile_utf8 h (path_join h [tempDir, ''tricho_data.json'']) = Some raw \<and>
      JSON_parse h raw = Some json \<and>
      readTrichoData_json (Number_falsy h) json = Inr (meta, arr) \<and>
      safeMeta h meta ''name'' ''-'' = Inr pid \<and>
      safeMeta h meta ''appointment_date'' (toLocaleString_jaJP h) = Inr ed)"
  by (auto simp add: main_checkInputs_def main_readData_def readTrichoData_def emit_def Let_def
       split: option.splits sum.splits prod.splits)

lemma main_reaches:
  assumes "reaches_browser h fl pos json arr pid ed"
  shows "main h =
     (arg_events h fl pos @ input_events h (path_resolve h [pos ! 0]) (htmlPath_of h fl) arr pid ed @
        fst (browser_part h fl pos arr pid ed),
      snd (browser_part h fl pos arr pid ed))"
proof -
  from assms obtain raw meta where
    "parseArgs (argv h) = (fl, pos)" "pos \<noteq> []"
    "access_ok h (path_join h [path_resolve h [pos ! 0], ''tricho_data.json''])"
    "access_ok h (htmlPath_of h fl)"
    "readFile_utf8 h (path_join h [path_resolve h [pos ! 0], ''tricho_data.json'']) = Some raw"
    "JSON_parse h raw = Some json"
    "readTrichoData_json (Number_falsy h) json = Inr (meta, arr)"
    "safeMeta h meta ''name'' ''-'' = Inr pid"
    "safeMeta h meta ''appointment_date'' (toLocaleString_jaJP h) = Inr ed"
    by (auto simp add: reaches_browser_def split: option.splits sum.splits)
  then show ?thesis
    by (simp add: main_unfold checkInputs_reaches browser_part_def)
qed

lemma main_cases:
  "(quiet (fst (main h)) \<and> ((\<exists>e. snd (main h) = Rejected e) \<or> snd (main h) = Exited 1)) \<or>
   (\<exists>fl pos json arr pid ed. reaches_browser h fl pos json arr pid ed)"
proof (cases "parseArgs (argv h)")
  case (Pair fl pos)
  show ?thesis
  proof (cases "pos = []")
    case True
    with Pair show ?thesis by (simp add: main_def)
  next
    case False
    from checkInputs_cases [of h "path_resolve h [pos ! 0]" "htmlPath_of h fl" "outPath_of h pos"]
    show ?thesis
    proof
      assume "quiet (fst (main_checkInputs h (path_resolve h [pos ! 0]) (htmlPath_of h fl) (outPath_of h pos))) \<and>
        ((\<exists>e. snd (main_checkInputs h (path_resolve h [pos ! 0]) (htmlPath_of h fl) (outPath_of h pos)) = Rejected e) \<or>
         snd (main_checkInputs h (path_resolve h [pos ! 0]) (htmlPath_of h fl) (outPath_of h pos)) = Exited 1)"
      with Pair False show ?thesis
        by (simp add: main_unfold quiet_arg_events)
    next
      assume "\<exists>raw json meta arr pid ed.
        access_ok h (path_join h [path_resolve h [pos ! 0], ''tricho_data.json'']) \<and>
        access_ok h (htmlPath_of h fl) \<and>
        readFile_utf8 h (path_join h [path_resolve h [pos ! 0], ''tricho_data.json'']) = Some raw \<and>
        JSON_parse h raw = Some json \<and>
        readTrichoData_json (Number_falsy h) json = Inr (meta, arr) \<and>
        safeMeta h meta ''name'' ''-'' = Inr pid \<and>
        safeMeta h meta ''appointment_date'' (toLocaleString_jaJP h) = Inr ed"
      then obtain raw json meta arr pid ed where
        "access_ok h (path_join h [path_resolve h [pos ! 0], ''tricho_data.json''])"
        "access_ok h (htmlPath_of h fl)"
        "readFile_utf8 h (path_join h [path_resolve h [pos ! 0], ''tricho_data.json'']) = Some raw"
        "JSON_parse h raw = Some json"
        "readTrichoData_json (Number_falsy h) json = Inr (meta, arr)"
        "safeMeta h meta ''name'' ''-'' = Inr pid"
        "safeMeta h meta ''appointment_date'' (toLocaleString_jaJP h) = Inr ed"
        by blast
      with Pair False have "reaches_browser h fl pos json arr pid ed"
        by (simp add: reaches_browser_def)
      then show ?thesis by blast
    qed
  qed
qed

subsection \<open>\<open>main\<close> in the browser\<close>

lemmas render_defs = main_render_def emit_def await_def unless_def evaluate_failure_def Let_def

lemma render_outcome:
  "snd (main_render h hp op arr pid ed n p) = Resolved \<or>
   (\<exists>e. snd (main_render h hp op arr pid ed n p) = Rejected e)"
  by (simp add: render_defs)

lemma render_close_iff_pdf:
  "(\<exists>b. Call browser_close b \<in> set (fst (main_render h hp op arr pid ed n p))) =
   (\<exists>q. Call (page_pdf q True True) True \<in> set (fst (main_render h hp op arr pid ed n p)))"
  by (auto simp add: render_defs)

lemma render_resolved_closes:
  "snd (main_render h hp op arr pid ed n p) = Resolved \<Longrightarrow>
   Call browser_close True \<in> set (fst (main_render h hp op arr pid ed n p))"
  by (simp add: render_defs split: if_splits)

lemma render_pdf_path:
  "Call (page_pdf q a b) ok \<in> set (fst (main_render h hp op arr pid ed n p)) \<Longrightarrow> q = op"
  by (simp add: render_defs split: if_splits)

lemma render_evaluate_data:
  "Call (page_evaluate payload) ok \<in> set (fst (main_render h hp op arr pid ed n p)) \<Longrightarrow>
   data payload = arr"
  by (auto simp add: render_defs split: if_splits)

lemma render_cooperates:
  assumes "browser_cooperates h"
  shows "snd (main_render h hp op arr pid ed n p) = Resolved \<and>
         (\<exists>payload. Call (page_evaluate payload) True \<in> set (fst (main_render h hp op arr pid ed n p)))"
  using assms by (simp add: browser_cooperates_def render_defs)

lemma render_settle:
  assumes "Call (page_waitForSelector sel t) b \<in> set (fst (main_render h hp op arr pid ed n p))"
  shows "sel = ''#mini tbody tr'' \<and> t = 8000 \<and>
     (\<exists>pre post. fst (main_render h hp op arr pid ed n p) = pre @ settle_events h @ post) \<and>
     (Call (page_pdf op True True) True \<in> set (fst (main_render h hp op arr pid ed n p))) =
       (emulateMediaType_ok h \<and> pdf_ok h op) \<and>
     (snd (main_render h hp op arr pid ed n p) = Resolved) =
       (emulateMediaType_ok h \<and> pdf_ok h op \<and> close_ok h)"
proof -
  from assms have ok: "launch_ok h" "newPage_ok h" "goto_ok h (pathToFileURL_href h hp)"
     "has_renderReportFromJson h" 
    by (simp_all add: render_defs split: if_splits)
  from assms have sel: "sel = ''#mini tbody tr'' \<and> t = 8000"
    by (simp add: render_defs split: if_splits)
  from assms have ev: "evaluate_failure h \<lparr>data = arr,
                    opts = \<lparr>patientId = pid, examDate = ed,
                             thresholds = \<lparr>thin60 = 3 / 10, ratio_max = 9 / 5, ultra30 = 3 / 20\<rparr>,
                             images = \<lparr>normalBaseUrl = toBaseUrl h n,
                 patientBaseUrl = toBaseUrl h p\<rparr>\<rparr>\<rparr> = None"
    by (simp add: main_render_def emit_def await_def unless_def Let_def split: if_splits option.splits)
  have form: "\<exists>pre post. fst (main_render h hp op arr pid ed n p) = pre @ settle_events h @ post"
    apply (rule exI [where x = "[console_log ''Launching browser...'' [],
      Call (puppeteer_launch [''--no-sandbox'', ''--disable-setuid-sandbox''] ''new'') True,
      Call browser_newPage True, console_log ''Loading HTML ...'' [],
      Call (page_goto (pathToFileURL_href h hp) ''domcontentloaded'') True,
      console_log ''Injecting data & rendering ...'' [],
      console_time ''render:evaluate'',
      Call (page_evaluate \<lparr>data = arr,
                    opts = \<lparr>patientId = pid, examDate = ed,
                             thresholds = \<lparr>thin60 = 3 / 10, ratio_max = 9 / 5, ultra30 = 3 / 20\<rparr>,
                             images = \<lparr>normalBaseUrl = toBaseUrl h n,
                 patientBaseUrl = toBaseUrl h p\<rparr>\<rparr>\<rparr>) True,
      console_timeEnd ''render:evaluate'',
      console_log ''Waiting for DOM to settle (logic table) ...'' []]"])
    using ok ev
    by (simp add: main_render_def emit_def await_def unless_def Let_def settle_events_def)
  have rest: "(Call (page_pdf op True True) True \<in> set (fst (main_render h hp op arr pid ed n p))) =
       (emulateMediaType_ok h \<and> pdf_ok h op) \<and>
     (snd (main_render h hp op arr pid ed n p) = Resolved) =
       (emulateMediaType_ok h \<and> pdf_ok h op \<and> close_ok h)"
    using ok ev
    by (simp add: main_render_def emit_def await_def unless_def Let_def)
  from sel form rest show ?thesis by simp
qed

subsection \<open>The whole run\<close>

lemma browser_part_outcome:
  "snd (browser_part h fl pos arr pid ed) = Resolved \<or>
   (\<exists>e. snd (browser_part h fl pos arr pid ed) = Rejected e)"
  unfolding browser_part_def by (rule render_outcome)

lemma program_reaches:
  assumes "reaches_browser h fl pos json arr pid ed"
  shows "fst (program h) =
           arg_events h fl pos @
           input_events h (path_resolve h [pos ! 0]) (htmlPath_of h fl) arr pid ed @
           fst (browser_part h fl pos arr pid ed) @
           (case snd (browser_part h fl pos arr pid ed) of
              Rejected e \<Rightarrow> [console_error (Uncaught e)] | _ \<Rightarrow> [])"
    and "snd (program h) = (if snd (browser_part h fl pos arr pid ed) = Resolved then 0 else 1)"
  using browser_part_outcome [of h fl pos arr pid ed] main_reaches [OF assms]
  by (auto simp add: program_def)

lemma program_quiet:
  assumes "\<not> (\<exists>fl pos json arr pid ed. reaches_browser h fl pos json arr pid ed)"
  shows "quiet (fst (program h)) \<and> snd (program h) = 1"
  using main_cases [of h] assms
  by (cases "main h") (auto simp add: program_def)

lemma Call_in_program:
  assumes "reaches_browser h fl pos json arr pid ed" and "browser_call c"
  shows "(Call c b \<in> set (fst (program h))) = (Call c b \<in> set (fst (browser_part h fl pos arr pid ed)))"
proof -
  have "Call c b \<notin> set (arg_events h fl pos)"
    using quiet_Call [OF quiet_arg_events] assms(2) by blast
  moreover have "Call c b \<notin> set (input_events h (path_resolve h [pos ! 0]) (htmlPath_of h fl) arr pid ed)"
    using quiet_Call [OF quiet_input_events] assms(2) by blast
  ultimately show ?thesis
    by (auto simp add: program_reaches(1) [OF assms(1)] split: outcome.splits)
qed

lemma main_in_program: "e \<in> set (fst (main h)) \<Longrightarrow> e \<in> set (fst (program h))"
  by (cases "main h") (auto simp add: program_def split: outcome.splits)

lemma pdf_out_logged:
  assumes "parseArgs (argv h) = (fl, pos)" and "pos \<noteq> []"
  shows "console_log ''pdf_out         :'' [outPath_of h pos] \<in> set (fst (program h))"
  by (rule main_in_program) (simp add: main_unfold [OF assms] arg_events_def)

lemma pdf_call_path:
  assumes "parseArgs (argv h) = (fl, pos)" and "Call (page_pdf q a b) ok \<in> set (fst (program h))"
  shows "q = outPath_of h pos"
proof (cases "\<exists>fl pos json arr pid ed. reaches_browser h fl pos json arr pid ed")
  case False
  then have "quiet (fst (program h))" using program_quiet by blast
  from quiet_Call [OF this assms(2)] show ?thesis by simp
next
  case True
  then obtain fl' pos' json arr pid ed where r: "reaches_browser h fl' pos' json arr pid ed"
    by blast
  with assms(1) have same: "fl' = fl" "pos' = pos" by (simp_all add: reaches_browser_def)
  from assms(2) have "Call (page_pdf q a b) ok \<in> set (fst (browser_part h fl pos arr pid ed))"
    using Call_in_program [OF r, of "page_pdf q a b" ok] same by simp
  then show ?thesis
    unfolding browser_part_def by (rule render_pdf_path)
qed

lemma evaluate_data:
  assumes "reaches_browser h fl pos json arr pid ed"
    and "Call (page_evaluate payload) ok \<in> set (fst (program h))"
  shows "data payload = arr"
proof -
  from assms(2) have "Call (page_evaluate payload) ok \<in> set (fst (browser_part h fl pos arr pid ed))"
    using Call_in_program [OF assms(1), of "page_evaluate payload" ok] by simp
  then show ?thesis
    unfolding browser_part_def by (rule render_evaluate_data)
qed

subsection \<open>Digits, letter case and the extension\<close>

lemma digit_char_is_digit: "n < 10 \<Longrightarrow> is_digit (digit_char n)"
  unfolding is_digit_def digit_char_def by (rule nth_mem) simp

lemma z_two_digits: 
  assumes "n < 100" shows "z n = two_digits n"
proof (cases "n < 10")
  case True
  then show ?thesis
    by (simp add: z_def padStart2_def two_digits_def String_nat.simps [of n] digit_char_def)
next
  case False
  moreover from assms have "n div 10 < 10" by simp
  ultimately show ?thesis
    by (simp add: z_def padStart2_def two_digits_def String_nat.simps [of n]
          String_nat.simps [of "n div 10"])
qed

lemma String_nat_four_digits:
  assumes "1000 \<le> n" and "n \<le> 9999" shows "String_nat n = four_digits n"
proof -
  from assms have a: "\<not> n < 10" "\<not> n div 10 < 10" "\<not> n div 100 < 10" "n div 1000 < 10"
    by simp_all
  have b: "n div 10 div 10 = n div 100" "n div 100 div 10 = n div 1000"
    by (simp_all add: div_mult2_eq)
  have "String_nat n = String_nat (n div 10) @ [digit_char (n mod 10)]"
    using a by (simp add: String_nat.simps [of n])
  also have "String_nat (n div 10) = String_nat (n div 100) @ [digit_char (n div 10 mod 10)]"
    using a b by (simp add: String_nat.simps [of "n div 10"])
  also have "String_nat (n div 100) = String_nat (n div 1000) @ [digit_char (n div 100 mod 10)]"
    using a b by (simp add: String_nat.simps [of "n div 100"])
  also have "String_nat (n div 1000) = [digit_char (n div 1000)]"
    using a by (simp add: String_nat.simps [of "n div 1000"])
  finally show ?thesis by (simp add: four_digits_def)
qed

lemma ts_calendar: "calendar d \<Longrightarrow> generated_name d = ''report-'' @ ts d @ ''.pdf''"
  by (simp add: calendar_def ts_def generated_name_def z_two_digits String_nat_four_digits)

lemma two_digits_ok: "n < 100 \<Longrightarrow> list_all is_digit (two_digits n)"
  by (simp add: two_digits_def digit_char_is_digit)

lemma four_digits_ok: "n \<le> 9999 \<Longrightarrow> list_all is_digit (four_digits n)"
  by (simp add: four_digits_def digit_char_is_digit)

lemma generated_matches: "calendar d \<Longrightarrow> matches_pattern (generated_name d)"
  using two_digits_ok [of "getMonth d + 1"] two_digits_ok [of "getDate d"] two_digits_ok [of "getHours d"]
    two_digits_ok [of "getMinutes d"] two_digits_ok [of "getSeconds d"] four_digits_ok [of "getFullYear d"]
  by (simp add: calendar_def matches_pattern_def generated_name_def two_digits_def four_digits_def)

lemma of_char_lower_char:
  "(of_char (lower_char c) :: nat) =
     (if 65 \<le> (of_char c :: nat) \<and> (of_char c :: nat) \<le> 90 then of_char c + 32 else of_char c)"
  by (auto simp add: lower_char_def Let_def)

lemma char_eq_code: "(c = d) = ((of_char c :: nat) = of_char d)"
  by simp

lemma lower_char_dot: "(lower_char c = CHR ''.'') = (c = CHR ''.'')"
  by (simp add: char_eq_code [of _ "CHR ''.''"] of_char_lower_char)

lemma lower_char_p: "(lower_char c = CHR ''p'') = (c = CHR ''p'' \<or> c = CHR ''P'')"
  by (auto simp add: char_eq_code [of _ "CHR ''p''"] char_eq_code [of _ "CHR ''P''"] of_char_lower_char)

lemma lower_char_d: "(lower_char c = CHR ''d'') = (c = CHR ''d'' \<or> c = CHR ''D'')"
  by (auto simp add: char_eq_code [of _ "CHR ''d''"] char_eq_code [of _ "CHR ''D''"] of_char_lower_char)

lemma lower_char_f: "(lower_char c = CHR ''f'') = (c = CHR ''f'' \<or> c = CHR ''F'')"
  by (auto simp add: char_eq_code [of _ "CHR ''f''"] char_eq_code [of _ "CHR ''F''"] of_char_lower_char)

lemma toLowerCase_pdf: "(toLowerCase e = ''.pdf'') = (e \<in> set pdf_extensions)"
proof -
  have "(toLowerCase e = ''.pdf'') =
        (\<exists>a b c d. e = [a, b, c, d] \<and> lower_char a = CHR ''.'' \<and> lower_char b = CHR ''p'' \<and>
           lower_char c = CHR ''d'' \<and> lower_char d = CHR ''f'')"
    by (auto simp add: toLowerCase_def map_eq_Cons_conv)
  also have "\<dots> = (e \<in> set pdf_extensions)"
    by (auto simp add: lower_char_dot lower_char_p lower_char_d lower_char_f pdf_extensions_def)
  finally show ?thesis .
qed

lemma extname_Nil: "extname [] = []"
  by (simp add: extname_def last_portion_def)

lemma outName_spec:
  assumes "calendar (now h)" and "pos \<noteq> []"
  shows "outName_of h pos = spec_outName pos (now h)"
proof (cases pos)
  case Nil
  with assms show ?thesis by simp
next
  case (Cons dir rest)
  show ?thesis
  proof (cases rest)
    case Nil
    with Cons assms show ?thesis
      by (simp add: outName_of_def spec_outName_def ts_calendar)
  next
    case (Cons name more)
    have "extname name \<in> set pdf_extensions \<Longrightarrow> name \<noteq> []"
      by (auto simp add: extname_Nil pdf_extensions_def)
    with Cons \<open>pos = dir # rest\<close> assms show ?thesis
      by (auto simp add: outName_of_def spec_outName_def ts_calendar toLowerCase_pdf)
  qed
qed

subsection \<open>The newest entry of a listing\<close>

lemma sorted_le_last: "sorted xs \<Longrightarrow> x \<in> set xs \<Longrightarrow> x \<le> last (xs :: nat list)"
  by (induction xs) auto

lemma newest_is_max:
  assumes "xs \<noteq> []"
  shows "hd (Sort_Object_Descending xs) \<in> set xs \<and>
         (\<forall>x \<in> set xs. LastWriteTime x \<le> LastWriteTime (hd (Sort_Object_Descending xs)))"
proof -
  let ?ys = "sort_key LastWriteTime xs"
  from assms have ne: "?ys \<noteq> []" by (metis length_0_conv length_sort)
  then have hd: "hd (Sort_Object_Descending xs) = last ?ys"
    by (simp add: Sort_Object_Descending_def hd_rev)
  have mem: "last ?ys \<in> set xs" using ne last_in_set [of ?ys] by simp
  have s: "sorted (map LastWriteTime ?ys)" by (rule sorted_sort_key)
  have l: "last (map LastWriteTime ?ys) = LastWriteTime (last ?ys)"
    using ne by (simp add: last_map)
  have "LastWriteTime x \<le> LastWriteTime (last ?ys)" if "x \<in> set xs" for x
  proof -
    from that have "LastWriteTime x \<in> set (map LastWriteTime ?ys)" by simp
    from sorted_le_last [OF s this] l show ?thesis by simp
  qed
  with hd mem show ?thesis by simp
qed

lemma midnight:
  "DateTime_Date t \<le> t \<and> ticks_per_day dvd DateTime_Date t \<and> t < DateTime_Date t + ticks_per_day"
proof -
  have "t mod ticks_per_day < ticks_per_day" by (simp add: ticks_per_day_def)
  moreover have "t mod ticks_per_day \<le> t" by simp
  ultimately show ?thesis
    by (simp add: DateTime_Date_def)
qed

subsection \<open>Evaluating a run on an example host\<close>

lemmas eval_defs = program_def main_def main_checkInputs_def main_readData_def main_render_def
  readTrichoData_def readTrichoData_json_def safeMeta_def emit_def await_def unless_def
  evaluate_failure_def Let_def parseArgs_def example_host_def example_join_def example_dirname_def
  example_bundle_def toBaseUrl_def endsWith_def DEFAULT_HTML_PATH_def js_read_def
  Object_prototype_def trim_def trimStart_def trimEnd_def js_spaces_def strip.simps
  ts_def z_def padStart2_def String_nat.simps digit_char_def extname_def last_portion_def
  toLowerCase_pdf pdf_extensions_def htmlPath_of_def outPath_of_def outName_of_def

section \<open>The claims\<close>

subsection \<open>C1: when the browser is closed\<close>

text \<open>
  C1, as the code has it. \<open>browser.close()\<close> is called in exactly the runs whose export
  completed, that is the runs in which \<open>page.pdf\<close> was fulfilled; the settle wait and the
  card count cannot prevent it. A run that launched a browser and does not get that far
  never calls \<open>browser.close()\<close>: its failure goes to the handler of lines 201-204, which
  prints the error as the last thing the run does and ends the process with status 1.
\<close>

theorem browser_close_only_after_export:
  "((\<exists>b. Call browser_close b \<in> set (fst (program h))) =
      (\<exists>p. Call (page_pdf p True True) True \<in> set (fst (program h)))) \<and>
   ((\<exists>a m. Call (puppeteer_launch a m) True \<in> set (fst (program h))) \<and>
    \<not> (\<exists>b. Call browser_close b \<in> set (fst (program h))) \<longrightarrow>
      snd (program h) = 1 \<and> (\<exists>e. last (fst (program h)) = console_error (Uncaught e)))"
proof (cases "\<exists>fl pos json arr pid ed. reaches_browser h fl pos json arr pid ed")
  case False
  then have q: "quiet (fst (program h))" using program_quiet by blast
  have "\<And>c b. browser_call c \<Longrightarrow> Call c b \<notin> set (fst (program h))"
    using quiet_Call [OF q] by blast
  then show ?thesis by simp
next
  case True
  then obtain fl pos json arr pid ed where r: "reaches_browser h fl pos json arr pid ed"
    by blast
  let ?bp = "browser_part h fl pos arr pid ed"
  have in_bp: "\<And>c b. browser_call c \<Longrightarrow> (Call c b \<in> set (fst (program h))) = (Call c b \<in> set (fst ?bp))"
    using Call_in_program [OF r] by blast
  have one: "(\<exists>b. Call browser_close b \<in> set (fst (program h))) =
      (\<exists>p. Call (page_pdf p True True) True \<in> set (fst (program h)))"
    using render_close_iff_pdf [of h "htmlPath_of h fl" "outPath_of h pos" arr pid ed]
    by (simp add: in_bp browser_part_def)
  have two: "snd (program h) = 1 \<and> (\<exists>e. last (fst (program h)) = console_error (Uncaught e))"
    if "\<not> (\<exists>b. Call browser_close b \<in> set (fst (program h)))"
  proof -
    from that have "Call browser_close True \<notin> set (fst ?bp)" by (simp add: in_bp)
    then have "snd ?bp \<noteq> Resolved"
      using render_resolved_closes unfolding browser_part_def by blast
    then obtain e where "snd ?bp = Rejected e" using browser_part_outcome by blast
    then show ?thesis by (simp add: program_reaches [OF r])
  qed
  from one two show ?thesis by blast
qed

theorem browser_close_only_after_export_witness:
  "Call (puppeteer_launch [''--no-sandbox'', ''--disable-setuid-sandbox''] ''new'') True
     \<in> set (fst (program (example_host\<lparr>goto_ok := (\<lambda>url. False)\<rparr>))) \<and>
   Call browser_close True \<notin> set (fst (program (example_host\<lparr>goto_ok := (\<lambda>url. False)\<rparr>))) \<and>
   Call browser_close False \<notin> set (fst (program (example_host\<lparr>goto_ok := (\<lambda>url. False)\<rparr>))) \<and>
   snd (program (example_host\<lparr>goto_ok := (\<lambda>url. False)\<rparr>)) = 1"
  using browser_close_only_after_export [of "example_host\<lparr>goto_ok := (\<lambda>url. False)\<rparr>"]
  by (simp add: eval_defs)

text \<open>
  C1 as stated asks for the teardown on every exit path. On a page that does not define
  \<open>renderReportFromJson\<close> the injection throws after the browser was launched, and the
  run ends with status 1 without any call of \<open>browser.close()\<close>.
\<close>

theorem missing_entry_point_skips_browser_close:
  "Call (puppeteer_launch [''--no-sandbox'', ''--disable-setuid-sandbox''] ''new'') True
     \<in> set (fst (program (example_host\<lparr>has_renderReportFromJson := False\<rparr>))) \<and>
   Call browser_close True \<notin> set (fst (program (example_host\<lparr>has_renderReportFromJson := False\<rparr>))) \<and>
   Call browser_close False \<notin> set (fst (program (example_host\<lparr>has_renderReportFromJson := False\<rparr>))) \<and>
   snd (program (example_host\<lparr>has_renderReportFromJson := False\<rparr>)) = 1"
  by (simp add: eval_defs)

subsection \<open>C2: the settle wait\<close>

text \<open>
  C2, as the code has it. A run that reaches the settle step calls \<open>page.waitForSelector\<close>
  for \<open>#mini tbody tr\<close> with a timeout of 8000 ms. However that call ends, the card count
  comes next, then the two lines printed and \<open>page.emulateMediaType\<close>: the export step is
  reached. From there the PDF is written exactly when \<open>emulateMediaType\<close> and \<open>pdf\<close> are
  fulfilled, and the status is 0 exactly when \<open>browser.close()\<close> is fulfilled as well and 1
  otherwise; neither depends on how the wait or the card count ended.
\<close>

theorem settle_wait_is_not_fatal:
  assumes "Call (page_waitForSelector sel t) b \<in> set (fst (program h))"
  shows "sel = ''#mini tbody tr'' \<and> t = 8000 \<and>
     (\<exists>pre post. fst (program h) = pre @ settle_events h @ post) \<and>
     (Call (page_pdf (outPath_of h (snd (parseArgs (argv h)))) True True) True \<in> set (fst (program h))) =
       (emulateMediaType_ok h \<and> pdf_ok h (outPath_of h (snd (parseArgs (argv h))))) \<and>
     (snd (program h) = 0) =
       (emulateMediaType_ok h \<and> pdf_ok h (outPath_of h (snd (parseArgs (argv h)))) \<and> close_ok h) \<and>
     (snd (program h) = 0 \<or> snd (program h) = 1)"
proof (cases "\<exists>fl pos json arr pid ed. reaches_browser h fl pos json arr pid ed")
  case False
  then have "quiet (fst (program h))" using program_quiet by blast
  from quiet_Call [OF this assms] show ?thesis by simp
next
  case True
  then obtain fl pos json arr pid ed where r: "reaches_browser h fl pos json arr pid ed"
    by blast
  then have pos: "snd (parseArgs (argv h)) = pos" by (simp add: reaches_browser_def)
  let ?bp = "browser_part h fl pos arr pid ed"
  have in_bp: "\<And>c b. browser_call c \<Longrightarrow> (Call c b \<in> set (fst (program h))) = (Call c b \<in> set (fst ?bp))"
    using Call_in_program [OF r] by blast
  from assms have "Call (page_waitForSelector sel t) b \<in> set (fst ?bp)" by (simp add: in_bp)
  from render_settle [OF this [unfolded browser_part_def]]
  have s: "sel = ''#mini tbody tr'' \<and> t = 8000"
    and "\<exists>pre post. fst ?bp = pre @ settle_events h @ post"
    and p: "(Call (page_pdf (outPath_of h pos) True True) True \<in> set (fst ?bp)) =
       (emulateMediaType_ok h \<and> pdf_ok h (outPath_of h pos))"
    and res: "(snd ?bp = Resolved) = (emulateMediaType_ok h \<and> pdf_ok h (outPath_of h pos) \<and> close_ok h)"
    by (simp_all add: browser_part_def)
  then obtain pre post where "fst ?bp = pre @ settle_events h @ post" by blast
  then have "fst (program h) =
      (arg_events h fl pos @ input_events h (path_resolve h [pos ! 0]) (htmlPath_of h fl) arr pid ed @ pre) @
      settle_events h @
      (post @ (case snd ?bp of Rejected e \<Rightarrow> [console_error (Uncaught e)] | _ \<Rightarrow> []))"
    by (simp add: program_reaches(1) [OF r])
  then have form: "\<exists>pre post. fst (program h) = pre @ settle_events h @ post" by blast
  from s form p res show ?thesis
    by (simp add: pos in_bp program_reaches(2) [OF r])
qed

theorem settle_wait_is_not_fatal_witness:
  "Call (page_waitForSelector ''#mini tbody tr'' 8000) False
     \<in> set (fst (program (example_host\<lparr>waitForSelector_result := TimedOut\<rparr>))) \<and>
   Call (page_pdf ''/cases/report-20250720-090500.pdf'' True True) True
     \<in> set (fst (program (example_host\<lparr>waitForSelector_result := TimedOut\<rparr>))) \<and>
   snd (program (example_host\<lparr>waitForSelector_result := TimedOut\<rparr>)) = 0"
proof -
  let ?h = "example_host\<lparr>waitForSelector_result := TimedOut\<rparr>"
  have reached: "Call (page_waitForSelector ''#mini tbody tr'' 8000) False \<in> set (fst (program ?h))"
    by (simp add: eval_defs)
  have out: "outPath_of ?h (snd (parseArgs (argv ?h))) = ''/cases/report-20250720-090500.pdf''"
    by (simp add: eval_defs)
  have ok: "emulateMediaType_ok ?h" "pdf_ok ?h ''/cases/report-20250720-090500.pdf''" "close_ok ?h"
    by (simp_all add: example_host_def)
  note t = settle_wait_is_not_fatal [OF reached, unfolded out]
  from t [THEN conjunct2, THEN conjunct2, THEN conjunct2, THEN conjunct1] ok
  have pdf: "Call (page_pdf ''/cases/report-20250720-090500.pdf'' True True) True \<in> set (fst (program ?h))"
    by blast
  from t [THEN conjunct2, THEN conjunct2, THEN conjunct2, THEN conjunct2, THEN conjunct1] ok
  have "snd (program ?h) = 0" by blast
  with reached pdf show ?thesis by blast
qed

text \<open>
  C2 as stated has the timeout of the wait as the only failure that is swallowed. The card
  count has a handler of its own (\<open>.catch(() => 0)\<close>): when \<open>page.$$eval\<close> is rejected
  the run goes on and ends with status 0.
\<close>

theorem card_count_failure_is_swallowed:
  "Call (page_eval_count ''.card'') False
     \<in> set (fst (program (example_host\<lparr>card_count := None\<rparr>))) \<and>
   snd (program (example_host\<lparr>card_count := None\<rparr>)) = 0"
  by (simp add: eval_defs)

subsection \<open>C3: the output path\<close>

text \<open>
  C3. For a run with a positional argument and a clock that reads a calendar date with a
  year of four digits, the output path (printed as \<open>pdf_out\<close>, and the \<open>path\<close> of every
  \<open>page.pdf\<close> call) is the parent of the resolved bundle directory joined with the
  caller's second positional argument when that has a PDF extension, and with the
  generated name otherwise; the generated name has the shape \<open>report-YYYYMMDD-HHMMSS.pdf\<close>,
  digits everywhere but at the one \<open>-\<close> between date and time.
\<close>

theorem output_path_rule:
  assumes "parseArgs (argv h) = (fl, pos)" and "pos \<noteq> []" and "calendar (now h)"
  shows "console_log ''pdf_out         :''
           [path_join h [path_dirname h (path_resolve h [pos ! 0]), spec_outName pos (now h)]]
           \<in> set (fst (program h)) \<and>
         (\<forall>p a b ok. Call (page_pdf p a b) ok \<in> set (fst (program h)) \<longrightarrow>
            p = path_join h [path_dirname h (path_resolve h [pos ! 0]), spec_outName pos (now h)]) \<and>
         matches_pattern (generated_name (now h))"
proof -
  have "outPath_of h pos =
          path_join h [path_dirname h (path_resolve h [pos ! 0]), spec_outName pos (now h)]"
    by (simp add: outPath_of_def outName_spec [OF assms(3) assms(2)])
  with pdf_out_logged [OF assms(1) assms(2)] pdf_call_path [OF assms(1)] generated_matches [OF assms(3)]
  show ?thesis by metis
qed

theorem output_path_rule_witness:
  "parseArgs (argv (example_host\<lparr>argv := [''/cases/c1'', ''out.txt'']\<rparr>)) =
     (None, [''/cases/c1'', ''out.txt'']) \<and>
   calendar (now (example_host\<lparr>argv := [''/cases/c1'', ''out.txt'']\<rparr>)) \<and>
   console_log ''pdf_out         :'' [''/cases/report-20250720-090500.pdf'']
     \<in> set (fst (program (example_host\<lparr>argv := [''/cases/c1'', ''out.txt'']\<rparr>)))"
proof -
  let ?h = "example_host\<lparr>argv := [''/cases/c1'', ''out.txt'']\<rparr>"
  let ?pos = "[''/cases/c1'', ''out.txt'']"
  have a: "parseArgs (argv ?h) = (None, ?pos)"
    by (simp add: parseArgs_def)
  have ne: "?pos \<noteq> []" by simp
  have c: "calendar (now ?h)"
    by (simp add: calendar_def example_host_def)
  have p: "path_join ?h [path_dirname ?h (path_resolve ?h [?pos ! 0]), spec_outName ?pos (now ?h)] =
             ''/cases/report-20250720-090500.pdf''"
    by (simp add: spec_outName_def extname_def last_portion_def pdf_extensions_def generated_name_def
          two_digits_def four_digits_def digit_char_def example_host_def example_join_def
          example_dirname_def)
  from output_path_rule [OF a ne c, THEN conjunct1, unfolded p] a c show ?thesis by blast
qed

subsection \<open>C4: \<open>safeMeta\<close>\<close>

text \<open>
  C4, as the code has it, for metadata that is an object. When the object holds \<open>null\<close>
  under the key, \<open>safeMeta\<close> returns the fallback. When it holds nothing under the key, the
  read goes on to \<open>Object.prototype\<close>: for a key that is not defined there, as \<open>name\<close> and
  \<open>appointment_date\<close> are not, \<open>safeMeta\<close> returns the fallback, and for a key that is
  defined there it treats the string of the built-in as it would a stored value. A stored
  string gives its trimmed text, and any other stored value with a string form that form
  trimmed, or the fallback when nothing is left of it. The result depends on the metadata
  only through what is stored under the key asked for.
\<close>

theorem safeMeta_rule:
  "(map_of kvs key = Some JNull \<longrightarrow> safeMeta h (JObj kvs) key fallback = Inr fallback) \<and>
   (map_of kvs key = None \<and> Object_prototype key = None \<longrightarrow>
      safeMeta h (JObj kvs) key fallback = Inr fallback) \<and>
   (\<forall>b. map_of kvs key = None \<and> Object_prototype key = Some b \<longrightarrow>
      safeMeta h (JObj kvs) key fallback = Inr (if trim b = [] then fallback else trim b)) \<and>
   (\<forall>s. map_of kvs key = Some (JStr s) \<longrightarrow>
      safeMeta h (JObj kvs) key fallback = Inr (if trim s = [] then fallback else trim s)) \<and>
   (\<forall>v str. map_of kvs key = Some v \<and> v \<noteq> JNull \<and> js_String (Number_toString h) v = Inr str \<longrightarrow>
      safeMeta h (JObj kvs) key fallback = Inr (if trim str = [] then fallback else trim str)) \<and>
   (\<forall>kvs'. map_of kvs' key = map_of kvs key \<longrightarrow>
      safeMeta h (JObj kvs') key fallback = safeMeta h (JObj kvs) key fallback) \<and>
   Object_prototype ''name'' = None \<and> Object_prototype ''appointment_date'' = None"
proof -
  have null: "safeMeta h (JObj kvs) key fallback = Inr fallback" if "map_of kvs key = Some JNull"
    using that by (simp add: safeMeta_def js_read_def)
  have absent: "safeMeta h (JObj kvs) key fallback = Inr fallback"
    if "map_of kvs key = None" and "Object_prototype key = None"
    using that by (simp add: safeMeta_def js_read_def)
  have inherited: "safeMeta h (JObj kvs) key fallback = Inr (if trim b = [] then fallback else trim b)"
    if "map_of kvs key = None" and "Object_prototype key = Some b" for b
    using that by (simp add: safeMeta_def js_read_def Let_def)
  have stored: "safeMeta h (JObj kvs) key fallback = Inr (if trim str = [] then fallback else trim str)"
    if "map_of kvs key = Some v" and "v \<noteq> JNull" and "js_String (Number_toString h) v = Inr str"
    for v str
    using that by (cases v) (simp_all add: safeMeta_def js_read_def Let_def)
  have string: "safeMeta h (JObj kvs) key fallback = Inr (if trim s = [] then fallback else trim s)"
    if "map_of kvs key = Some (JStr s)" for s
    using stored [OF that] by simp
  have same: "safeMeta h (JObj kvs') key fallback = safeMeta h (JObj kvs) key fallback"
    if "map_of kvs' key = map_of kvs key" for kvs'
    using that by (simp add: safeMeta_def js_read_def)
  have keys: "Object_prototype ''name'' = None \<and> Object_prototype ''appointment_date'' = None"
    by (simp add: Object_prototype_def)
  from null absent inherited string stored same keys show ?thesis by blast
qed

theorem safeMeta_rule_witness:
  "safeMeta example_host
     (JObj [(''name'', JStr (CHR 0xE3 # CHR 0x80 # CHR 0x80 # '' P-001 '')),
            (''appointment_date'', JNull), (''memo'', JStr [CHR 0x20, CHR 0xE3, CHR 0x80, CHR 0x80])])
     ''name'' ''-'' = Inr ''P-001'' \<and>
   safeMeta example_host
     (JObj [(''name'', JStr (CHR 0xE3 # CHR 0x80 # CHR 0x80 # '' P-001 '')),
            (''appointment_date'', JNull), (''memo'', JStr [CHR 0x20, CHR 0xE3, CHR 0x80, CHR 0x80])])
     ''appointment_date'' ''2025/7/20 9:05:00'' = Inr ''2025/7/20 9:05:00'' \<and>
   safeMeta example_host
     (JObj [(''name'', JStr (CHR 0xE3 # CHR 0x80 # CHR 0x80 # '' P-001 '')),
            (''appointment_date'', JNull), (''memo'', JStr [CHR 0x20, CHR 0xE3, CHR 0x80, CHR 0x80])])
     ''memo'' ''-'' = Inr ''-'' \<and>
   safeMeta example_host
     (JObj [(''name'', JStr (CHR 0xE3 # CHR 0x80 # CHR 0x80 # '' P-001 '')),
            (''appointment_date'', JNull), (''memo'', JStr [CHR 0x20, CHR 0xE3, CHR 0x80, CHR 0x80])])
     ''address'' ''-'' = Inr ''-''"
proof -
  let ?kvs = "[(''name'', JStr (CHR 0xE3 # CHR 0x80 # CHR 0x80 # '' P-001 '')),
               (''appointment_date'', JNull),
               (''memo'', JStr [CHR 0x20, CHR 0xE3, CHR 0x80, CHR 0x80])] :: (string \<times> nat json) list"
  have t: "trim (CHR 0xE3 # CHR 0x80 # CHR 0x80 # '' P-001 '') = ''P-001''"
    by (simp add: trim_def trimStart_def trimEnd_def js_spaces_def strip.simps)
  have b: "trim [CHR 0x20, CHR 0xE3, CHR 0x80, CHR 0x80] = []"
    by (simp add: trim_def trimStart_def trimEnd_def js_spaces_def strip.simps)
  have n: "map_of ?kvs ''name'' = Some (JStr (CHR 0xE3 # CHR 0x80 # CHR 0x80 # '' P-001 ''))"
    by simp
  have d: "map_of ?kvs ''appointment_date'' = Some JNull" by simp
  have m: "map_of ?kvs ''memo'' = Some (JStr [CHR 0x20, CHR 0xE3, CHR 0x80, CHR 0x80])" by simp
  have a: "map_of ?kvs ''address'' = None \<and> Object_prototype ''address'' = None"
    by (simp add: Object_prototype_def)
  note r = safeMeta_rule [of ?kvs _ example_host]
  from r [of "''name''" "''-''", THEN conjunct2, THEN conjunct2, THEN conjunct2, THEN conjunct1,
      rule_format, OF n]
  have one: "safeMeta example_host (JObj ?kvs) ''name'' ''-'' = Inr ''P-001''"
    by (simp add: t)
  from r [of "''appointment_date''" "''2025/7/20 9:05:00''", THEN conjunct1, rule_format, OF d]
  have two: "safeMeta example_host (JObj ?kvs) ''appointment_date'' ''2025/7/20 9:05:00'' =
      Inr ''2025/7/20 9:05:00''" .
  from r [of "''memo''" "''-''", THEN conjunct2, THEN conjunct2, THEN conjunct2, THEN conjunct1,
      rule_format, OF m]
  have three: "safeMeta example_host (JObj ?kvs) ''memo'' ''-'' = Inr ''-''"
    by (simp add: b)
  from r [of "''address''" "''-''", THEN conjunct2, THEN conjunct1, rule_format, OF a]
  have "safeMeta example_host (JObj ?kvs) ''address'' ''-'' = Inr ''-''" .
  with one two three show ?thesis by blast
qed

text \<open>
  C4 as stated has the fallback for every key the metadata holds no value for. The read
  \<open>meta?.[key]\<close> follows the prototype chain: under \<open>constructor\<close> the empty object holds
  nothing, and \<open>safeMeta\<close> returns the text of the inherited function, not the fallback.
\<close>

theorem inherited_key_is_not_absent:
  "map_of ([] :: (string \<times> nat json) list) ''constructor'' = None \<and>
   safeMeta example_host (JObj []) ''constructor'' ''-'' =
     Inr ''function Object() { [native code] }''"
  by (simp add: safeMeta_def js_read_def Object_prototype_def trim_def trimStart_def trimEnd_def
        js_spaces_def strip.simps)

subsection \<open>C5: no array of regions\<close>

text \<open>
  C5. When the parsed data file (any value but \<open>null\<close>, whose properties cannot be read)
  has no \<open>tricho_analysis\<close> or has one that is not an array, the loader returns the empty
  sequence and no error. A run on such a file that gets to the browser passes the empty
  sequence to the page, and with a browser that fulfils its calls it ends with status 0.
\<close>

theorem missing_array_gives_empty_regions:
  assumes "json \<noteq> JNull" and "\<forall>xs. js_get json ''tricho_analysis'' \<noteq> Some (JArr xs)"
  shows "(\<exists>meta. readTrichoData_json falsy json = Inr (meta, [])) \<and>
         (\<forall>h fl pos arr pid ed. reaches_browser h fl pos json arr pid ed \<longrightarrow>
            arr = [] \<and>
            (\<forall>payload ok. Call (page_evaluate payload) ok \<in> set (fst (program h)) \<longrightarrow>
               data payload = []) \<and>
            (browser_cooperates h \<longrightarrow>
               snd (program h) = 0 \<and>
               (\<exists>payload. Call (page_evaluate payload) True \<in> set (fst (program h)))))"
proof -
  have loader: "\<exists>meta. readTrichoData_json falsy json = Inr (meta, [])" for falsy :: "'a \<Rightarrow> bool"
    using assms
    by (cases json) (auto simp add: readTrichoData_json_def Let_def split: option.splits json.splits)
  have run: "arr = [] \<and>
       (\<forall>payload ok. Call (page_evaluate payload) ok \<in> set (fst (program h)) \<longrightarrow> data payload = []) \<and>
       (browser_cooperates h \<longrightarrow> snd (program h) = 0 \<and>
          (\<exists>payload. Call (page_evaluate payload) True \<in> set (fst (program h))))"
    if r: "reaches_browser h fl pos json arr pid ed" for h :: "'a host" and fl pos arr pid ed
  proof -
    from r loader [of "Number_falsy h"] have e: "arr = []"
      by (auto simp add: reaches_browser_def)
    have "data payload = []" if "Call (page_evaluate payload) ok \<in> set (fst (program h))" for payload ok
      using evaluate_data [OF r that] e by simp
    moreover have "snd (program h) = 0 \<and> (\<exists>payload. Call (page_evaluate payload) True \<in> set (fst (program h)))"
      if "browser_cooperates h"
      using render_cooperates [OF that, of "htmlPath_of h fl" "outPath_of h pos" arr pid ed]
        Call_in_program [OF r]
      by (auto simp add: program_reaches(2) [OF r] browser_part_def)
    ultimately show ?thesis using e by blast
  qed
  from loader run show ?thesis by blast
qed

theorem missing_array_gives_empty_regions_witness:
  "reaches_browser (example_host\<lparr>JSON_parse := (\<lambda>raw. Some (JObj [(''report_metadata'', JObj [])]))\<rparr>)
     None [''/cases/c1''] (JObj [(''report_metadata'', JObj [])]) [] ''-'' ''2025/7/20 9:05:00'' \<and>
   browser_cooperates (example_host\<lparr>JSON_parse := (\<lambda>raw. Some (JObj [(''report_metadata'', JObj [])]))\<rparr>) \<and>
   snd (program (example_host\<lparr>JSON_parse := (\<lambda>raw. Some (JObj [(''report_metadata'', JObj [])]))\<rparr>)) = 0"
proof -
  let ?json = "JObj [(''report_metadata'', JObj [])] :: nat json"
  let ?h = "example_host\<lparr>JSON_parse := (\<lambda>raw. Some ?json)\<rparr>"
  have n: "?json \<noteq> JNull" by simp
  have a: "\<forall>xs. js_get ?json ''tricho_analysis'' \<noteq> Some (JArr xs)" by simp
  have r: "reaches_browser ?h None [''/cases/c1''] ?json [] ''-'' ''2025/7/20 9:05:00''"
    by (simp add: reaches_browser_def parseArgs_def example_host_def example_join_def
          htmlPath_of_def DEFAULT_HTML_PATH_def readTrichoData_json_def safeMeta_def js_read_def
          Object_prototype_def)
  have c: "browser_cooperates ?h"
    by (simp add: browser_cooperates_def example_host_def)
  from missing_array_gives_empty_regions [OF n a, THEN conjunct2, rule_format, OF r]
  have "browser_cooperates ?h \<longrightarrow> snd (program ?h) = 0 \<and>
      (\<exists>payload. Call (page_evaluate payload) True \<in> set (fst (program ?h)))"
    by blast
  with c have "snd (program ?h) = 0" by blast
  with r c show ?thesis by blast
qed

subsection \<open>C6: the order of the regions\<close>

text \<open>
  C6. When the data file parses to a value whose \<open>tricho_analysis\<close> is an array, the loader
  returns exactly that array, and the \<open>data\<close> of whatever the run passes to
  \<open>page.evaluate\<close> is that array: same elements, same order.
\<close>

theorem region_order_preserved:
  assumes "parseArgs (argv h) = (fl, pos)"
    and "readFile_utf8 h (path_join h [path_resolve h [pos ! 0], ''tricho_data.json'']) = Some raw"
    and "JSON_parse h raw = Some json"
    and "js_get json ''tricho_analysis'' = Some (JArr regions)"
    and "Call (page_evaluate payload) ok \<in> set (fst (program h))"
  shows "(\<exists>meta. readTrichoData_json (Number_falsy h) json = Inr (meta, regions)) \<and>
         data payload = regions"
proof -
  from assms(4) have loader: "\<exists>meta. readTrichoData_json (Number_falsy h) json = Inr (meta, regions)"
    by (cases json) (simp_all add: readTrichoData_json_def)
  have "\<exists>fl pos json arr pid ed. reaches_browser h fl pos json arr pid ed"
  proof (rule ccontr)
    assume "\<not> ?thesis"
    then have "quiet (fst (program h))" using program_quiet by blast
    from quiet_Call [OF this assms(5)] show False by simp
  qed
  then obtain fl' pos' json' arr pid ed where r: "reaches_browser h fl' pos' json' arr pid ed"
    by blast
  with assms(1,2,3) have "json' = json"
    by (auto simp add: reaches_browser_def)
  with r loader have "arr = regions"
    by (auto simp add: reaches_browser_def)
  with evaluate_data [OF r assms(5)] loader show ?thesis by simp
qed

theorem region_order_preserved_witness:
  "js_get example_bundle ''tricho_analysis'' =
     Some (JArr [JObj [(''region'', JStr ''frontal'')], JObj [(''region'', JStr ''vertex'')]]) \<and>
   Call (page_evaluate
      \<lparr>data = [JObj [(''region'', JStr ''frontal'')], JObj [(''region'', JStr ''vertex'')]],
        opts = \<lparr>patientId = ''P-001'', examDate = ''2025-07-20'',
                thresholds = \<lparr>thin60 = 3 / 10, ratio_max = 9 / 5, ultra30 = 3 / 20\<rparr>,
                images = \<lparr>normalBaseUrl = ''file:///app/normal_images/'',
                          patientBaseUrl = ''file:///cases/c1/filtered_images/''\<rparr>\<rparr>\<rparr>) True
     \<in> set (fst (program example_host)) \<and>
   (\<exists>meta. readTrichoData_json (Number_falsy example_host) example_bundle =
      Inr (meta, [JObj [(''region'', JStr ''frontal'')], JObj [(''region'', JStr ''vertex'')]]))"
proof -
  let ?regions = "[JObj [(''region'', JStr ''frontal'')], JObj [(''region'', JStr ''vertex'')]] :: nat json list"
  let ?payload = "\<lparr>data = ?regions,
        opts = \<lparr>patientId = ''P-001'', examDate = ''2025-07-20'',
                thresholds = \<lparr>thin60 = 3 / 10, ratio_max = 9 / 5, ultra30 = 3 / 20\<rparr>,
                images = \<lparr>normalBaseUrl = ''file:///app/normal_images/'',
                          patientBaseUrl = ''file:///cases/c1/filtered_images/''\<rparr>\<rparr>\<rparr>"
  have a: "parseArgs (argv example_host) = (None, [''/cases/c1''])"
    by (simp add: parseArgs_def example_host_def)
  have f: "readFile_utf8 example_host
             (path_join example_host [path_resolve example_host [[''/cases/c1''] ! 0], ''tricho_data.json'']) =
           Some ''(bundle c1)''"
    by (simp add: example_host_def example_join_def)
  have j: "JSON_parse example_host ''(bundle c1)'' = Some example_bundle"
    by (simp add: example_host_def)
  have g: "js_get example_bundle ''tricho_analysis'' = Some (JArr ?regions)"
    by (simp add: example_bundle_def)
  have e: "Call (page_evaluate ?payload) True \<in> set (fst (program example_host))"
    by (simp add: eval_defs)
  from region_order_preserved [OF a f j g e] g e show ?thesis by blast
qed

subsection \<open>C7: a missing input\<close>

text \<open>
  C7. When \<open>tricho_data.json\<close> under the bundle directory or the template is not
  accessible, the run ends with status 1 right after the failed check: the events are the
  four lines of lines 91-98, the line of line 101, the checks up to the failed one and the
  message about the missing file. No call but \<open>fs.access\<close> is made, so no browser is
  launched.
\<close>

theorem missing_input_exits_before_launch:
  assumes "parseArgs (argv h) = (flags_html, positional)" and "positional \<noteq> []"
    and "dataJsonPath = path_join h [path_resolve h [positional ! 0], ''tricho_data.json'']"
    and "htmlPath = htmlPath_of h flags_html"
    and "\<not> access_ok h dataJsonPath \<or> \<not> access_ok h htmlPath"
  shows "snd (program h) = 1 \<and>
     (\<forall>c b. Call c b \<in> set (fst (program h)) \<longrightarrow> c = fs_access dataJsonPath \<or> c = fs_access htmlPath) \<and>
     (fst (program h) =
        arg_events h flags_html positional @
        [console_log ''Checking inputs...'' [],
         Call (fs_access dataJsonPath) False, console_error (Missing_file dataJsonPath)] \<or>
      fst (program h) =
        arg_events h flags_html positional @
        [console_log ''Checking inputs...'' [],
         Call (fs_access dataJsonPath) True,
         Call (fs_access htmlPath) False, console_error (Missing_HTML htmlPath)])"
proof -
  note m = main_unfold [OF assms(1,2)]
  show ?thesis
  proof (cases "access_ok h dataJsonPath")
    case False
    with assms(3,4) show ?thesis
      by (simp add: program_def m main_checkInputs_def emit_def Let_def arg_events_def)
  next
    case True
    with assms(5) have "\<not> access_ok h htmlPath" by simp
    with True assms(3,4) show ?thesis
      by (simp add: program_def m main_checkInputs_def emit_def Let_def arg_events_def)
  qed
qed

theorem missing_input_exits_before_launch_witness:
  "\<not> access_ok (example_host\<lparr>access_ok := (\<lambda>p. p = ''/cases/c1/tricho_data.json'')\<rparr>)
       ''/app/report_template.html'' \<and>
   snd (program (example_host\<lparr>access_ok := (\<lambda>p. p = ''/cases/c1/tricho_data.json'')\<rparr>)) = 1 \<and>
   Call (puppeteer_launch [''--no-sandbox'', ''--disable-setuid-sandbox''] ''new'') True
     \<notin> set (fst (program (example_host\<lparr>access_ok := (\<lambda>p. p = ''/cases/c1/tricho_data.json'')\<rparr>)))"
proof -
  let ?h = "example_host\<lparr>access_ok := (\<lambda>p. p = ''/cases/c1/tricho_data.json'')\<rparr>"
  have a: "parseArgs (argv ?h) = (None, [''/cases/c1''])"
    by (simp add: parseArgs_def example_host_def)
  have ne: "[''/cases/c1''] \<noteq> []" by simp
  have d: "''/cases/c1/tricho_data.json'' =
      path_join ?h [path_resolve ?h [[''/cases/c1''] ! 0], ''tricho_data.json'']"
    by (simp add: example_host_def example_join_def)
  have t: "''/app/report_template.html'' = htmlPath_of ?h None"
    by (simp add: example_host_def example_join_def htmlPath_of_def DEFAULT_HTML_PATH_def)
  have m: "\<not> access_ok ?h ''/app/report_template.html''" by simp
  then have m': "\<not> access_ok ?h ''/cases/c1/tricho_data.json'' \<or> \<not> access_ok ?h ''/app/report_template.html''"
    by simp
  note r = missing_input_exits_before_launch [OF a ne d t m']
  from r have "snd (program ?h) = 1" by blast
  moreover from r have "Call (puppeteer_launch [''--no-sandbox'', ''--disable-setuid-sandbox''] ''new'') True
     \<notin> set (fst (program ?h))" by blast
  ultimately show ?thesis using m by blast
qed

subsection \<open>C8: no positional argument\<close>

text \<open>
  C8. With no positional argument the run prints the usage text on \<open>console.error\<close> and
  ends with status 1; that line is the only event of the run.
\<close>

theorem no_positional_prints_usage:
  "snd (parseArgs (argv h)) = [] \<Longrightarrow> program h = ([console_error Usage], 1)"
  by (cases "parseArgs (argv h)") (simp add: program_def main_def)

theorem no_positional_prints_usage_witness:
  "snd (parseArgs (argv (example_host\<lparr>argv := [''--html'', ''/t/custom.html'']\<rparr>))) = [] \<and>
   program (example_host\<lparr>argv := [''--html'', ''/t/custom.html'']\<rparr>) = ([console_error Usage], 1)"
proof -
  have "snd (parseArgs (argv (example_host\<lparr>argv := [''--html'', ''/t/custom.html'']\<rparr>))) = []"
    by (simp add: parseArgs_def)
  with no_positional_prints_usage [OF this] show ?thesis by blast
qed

subsection \<open>C9: the newest report of a directory\<close>

text \<open>
  C9. Among the entries of the directory, the matches are the files whose name passes
  \<open>-Filter *.pdf\<close> and whose \<open>LastWriteTime\<close> is not before 00:00 of the target date. With
  no match the script returns the short date followed by \<open>has no report\<close>; otherwise it
  returns the \<open>FullName\<close> of a match that no other match is newer than. \<open>DateTime.Date\<close>
  is the start of the target date's own day.
\<close>

theorem newest_report_or_message:
  "((\<forall>f \<in> set children. PSIsContainer f \<or> \<not> Filter_pdf (Name f) \<or>
        LastWriteTime f < DateTime_Date targetDate) \<longrightarrow>
     report_query short children targetDate = short targetDate @ '' has no report'') \<and>
   ((\<exists>f \<in> set children. \<not> PSIsContainer f \<and> Filter_pdf (Name f) \<and>
        DateTime_Date targetDate \<le> LastWriteTime f) \<longrightarrow>
     (\<exists>f \<in> set children. \<not> PSIsContainer f \<and> Filter_pdf (Name f) \<and>
        DateTime_Date targetDate \<le> LastWriteTime f \<and>
        report_query short children targetDate = FullName f \<and>
        (\<forall>g \<in> set children. \<not> PSIsContainer g \<and> Filter_pdf (Name g) \<and>
           DateTime_Date targetDate \<le> LastWriteTime g \<longrightarrow> LastWriteTime g \<le> LastWriteTime f))) \<and>
   DateTime_Date targetDate \<le> targetDate \<and> ticks_per_day dvd DateTime_Date targetDate \<and>
   targetDate < DateTime_Date targetDate + ticks_per_day"
proof -
  let ?ms = "filter (\<lambda>f. DateTime_Date targetDate \<le> LastWriteTime f)
                (filter (\<lambda>f. \<not> PSIsContainer f \<and> Filter_pdf (Name f)) children)"
  have none: "report_query short children targetDate = short targetDate @ '' has no report''"
    if "\<forall>f \<in> set children. PSIsContainer f \<or> \<not> Filter_pdf (Name f) \<or>
        LastWriteTime f < DateTime_Date targetDate"
  proof -
    from that have "?ms = []" by (auto simp add: filter_empty_conv)
    then show ?thesis
      by (simp add: report_query_def newestFile_def Sort_Object_Descending_def)
  qed
  have some: "\<exists>f \<in> set children. \<not> PSIsContainer f \<and> Filter_pdf (Name f) \<and>
        DateTime_Date targetDate \<le> LastWriteTime f \<and>
        report_query short children targetDate = FullName f \<and>
        (\<forall>g \<in> set children. \<not> PSIsContainer g \<and> Filter_pdf (Name g) \<and>
           DateTime_Date targetDate \<le> LastWriteTime g \<longrightarrow> LastWriteTime g \<le> LastWriteTime f)"
    if "\<exists>f \<in> set children. \<not> PSIsContainer f \<and> Filter_pdf (Name f) \<and>
        DateTime_Date targetDate \<le> LastWriteTime f"
  proof -
    from that have ne: "?ms \<noteq> []" by (auto simp add: filter_empty_conv)
    let ?f = "hd (Sort_Object_Descending ?ms)"
    from ne have "Sort_Object_Descending ?ms \<noteq> []"
      by (simp add: Sort_Object_Descending_def) (metis length_0_conv length_sort)
    then have "report_query short children targetDate = FullName ?f"
      by (cases "Sort_Object_Descending ?ms") (simp_all add: report_query_def newestFile_def)
    with newest_is_max [OF ne] show ?thesis
      by (intro bexI [where x = ?f]) auto
  qed
  from none some midnight [of targetDate] show ?thesis by blast
qed

theorem newest_report_or_message_witness:
  "report_query (\<lambda>t. ''2025/07/20'')
     [\<lparr>Name = ''a.pdf'', FullName = ''D:/case/a.pdf'', LastWriteTime = 5 * ticks_per_day + 7, PSIsContainer = False\<rparr>,
      \<lparr>Name = ''b.PDF'', FullName = ''D:/case/b.PDF'', LastWriteTime = 5 * ticks_per_day + 9, PSIsContainer = False\<rparr>,
      \<lparr>Name = ''c.txt'', FullName = ''D:/case/c.txt'', LastWriteTime = 5 * ticks_per_day + 19, PSIsContainer = False\<rparr>,
      \<lparr>Name = ''old.pdf'', FullName = ''D:/case/old.pdf'', LastWriteTime = 4 * ticks_per_day + 19, PSIsContainer = False\<rparr>]
     (5 * ticks_per_day + 100) = ''D:/case/b.PDF'' \<and>
   report_query (\<lambda>t. ''2025/07/20'')
     [\<lparr>Name = ''old.pdf'', FullName = ''D:/case/old.pdf'', LastWriteTime = 4 * ticks_per_day + 19, PSIsContainer = False\<rparr>]
     (5 * ticks_per_day + 100) = ''2025/07/20 has no report''"
proof -
  let ?a = "\<lparr>Name = ''a.pdf'', FullName = ''D:/case/a.pdf'', LastWriteTime = 5 * ticks_per_day + 7, PSIsContainer = False\<rparr>"
  let ?b = "\<lparr>Name = ''b.PDF'', FullName = ''D:/case/b.PDF'', LastWriteTime = 5 * ticks_per_day + 9, PSIsContainer = False\<rparr>"
  let ?c = "\<lparr>Name = ''c.txt'', FullName = ''D:/case/c.txt'', LastWriteTime = 5 * ticks_per_day + 19, PSIsContainer = False\<rparr>"
  let ?o = "\<lparr>Name = ''old.pdf'', FullName = ''D:/case/old.pdf'', LastWriteTime = 4 * ticks_per_day + 19, PSIsContainer = False\<rparr>"
  let ?t = "5 * ticks_per_day + 100"
  let ?short = "\<lambda>t::nat. ''2025/07/20''"
  let ?all = "[?a, ?b, ?c, ?o]"
  have late: "DateTime_Date ?t \<le> LastWriteTime ?a" "DateTime_Date ?t \<le> LastWriteTime ?b"
    and old: "LastWriteTime ?o < DateTime_Date ?t"
    and order: "\<not> LastWriteTime ?b \<le> LastWriteTime ?a"
    by (simp_all add: DateTime_Date_def ticks_per_day_def)
  have f: "Filter_pdf (Name ?a)" "Filter_pdf (Name ?b)" "\<not> Filter_pdf (Name ?c)"
    by (simp_all add: Filter_pdf_def endsWith_def toLowerCase_def lower_char_dot lower_char_p
          lower_char_d lower_char_f)
  have "\<exists>x \<in> set ?all. \<not> PSIsContainer x \<and> Filter_pdf (Name x) \<and> DateTime_Date ?t \<le> LastWriteTime x"
    using f(2) late(2) by (intro bexI [where x = ?b]) simp_all
  from newest_report_or_message [of ?all ?t ?short, THEN conjunct2, THEN conjunct1, rule_format, OF this]
  obtain g where g: "g \<in> set ?all" "Filter_pdf (Name g)" "DateTime_Date ?t \<le> LastWriteTime g"
      "report_query ?short ?all ?t = FullName g"
      "\<forall>x \<in> set ?all. \<not> PSIsContainer x \<and> Filter_pdf (Name x) \<and> DateTime_Date ?t \<le> LastWriteTime x \<longrightarrow>
         LastWriteTime x \<le> LastWriteTime g"
    by blast
  from g(5) f(2) late(2) have "LastWriteTime ?b \<le> LastWriteTime g" by simp
  with g(1,2,3) f(3) old order have "g = ?b" by auto
  with g(4) have one: "report_query ?short ?all ?t = ''D:/case/b.PDF''" by simp
  have "\<forall>x \<in> set [?o]. PSIsContainer x \<or> \<not> Filter_pdf (Name x) \<or> LastWriteTime x < DateTime_Date ?t"
    using old by simp
  from newest_report_or_message [of "[?o]" ?t ?short, THEN conjunct1, THEN mp, OF this]
  have "report_query ?short [?o] ?t = ''2025/07/20 has no report''" by simp
  with one show ?thesis by blast
qed

subsection \<open>C10: the letter case of the extension\<close>

text \<open>
  C10. When the extension of the second positional argument is \<open>.pdf\<close> in any letter
  casing, the output path is the parent directory joined with that argument as it was
  given.
\<close>

theorem pdf_extension_any_case:
  assumes "parseArgs (argv h) = (fl, pos)" and "1 < length pos"
    and "extname (pos ! 1) \<in> set pdf_extensions"
  shows "console_log ''pdf_out         :''
           [path_join h [path_dirname h (path_resolve h [pos ! 0]), pos ! 1]]
           \<in> set (fst (program h)) \<and>
         (\<forall>p a b ok. Call (page_pdf p a b) ok \<in> set (fst (program h)) \<longrightarrow>
            p = path_join h [path_dirname h (path_resolve h [pos ! 0]), pos ! 1])"
proof -
  from assms(3) have "pos ! 1 \<noteq> []"
    by (auto simp add: extname_Nil pdf_extensions_def)
  with assms(2,3) have "outName_of h pos = pos ! 1"
    by (simp add: outName_of_def toLowerCase_pdf)
  then have "outPath_of h pos = path_join h [path_dirname h (path_resolve h [pos ! 0]), pos ! 1]"
    by (simp add: outPath_of_def)
  moreover from assms(2) have "pos \<noteq> []" by auto
  ultimately show ?thesis
    using pdf_out_logged [OF assms(1)] pdf_call_path [OF assms(1)] by metis
qed

theorem pdf_extension_any_case_witness:
  "extname ''Out.PdF'' \<in> set pdf_extensions \<and>
   console_log ''pdf_out         :'' [''/cases/Out.PdF'']
     \<in> set (fst (program (example_host\<lparr>argv := [''/cases/c1'', ''Out.PdF'']\<rparr>)))"
proof -
  let ?h = "example_host\<lparr>argv := [''/cases/c1'', ''Out.PdF'']\<rparr>"
  let ?pos = "[''/cases/c1'', ''Out.PdF'']"
  have a: "parseArgs (argv ?h) = (None, ?pos)" by (simp add: parseArgs_def)
  have l: "1 < length ?pos" by simp
  have x: "extname ''Out.PdF'' \<in> set pdf_extensions"
    by (simp add: extname_def last_portion_def pdf_extensions_def)
  then have x': "extname (?pos ! 1) \<in> set pdf_extensions" by simp
  have p: "path_join ?h [path_dirname ?h (path_resolve ?h [?pos ! 0]), ?pos ! 1] = ''/cases/Out.PdF''"
    by (simp add: example_host_def example_join_def example_dirname_def)
  from pdf_extension_any_case [OF a l x', THEN conjunct1, unfolded p] x show ?thesis by blast
qed

end
